theory Spec2Isabelle
  imports Main "HOL-Library.Sublist"
begin

section \<open>Schedule tree nodes (dace/sdfg/analysis/schedule_tree/treenodes.py)\<close>

text \<open>
  Strings are Python \<open>str\<close> values; \<open>join\<close> is \<open>sep.join(xs)\<close> and
  \<open>indent_str n\<close> is \<open>n * INDENTATION\<close>.
\<close>

definition INDENTATION :: string where
  "INDENTATION = ''  ''"

definition indent_str :: "nat \<Rightarrow> string" where
  "indent_str n = concat (replicate n INDENTATION)"

fun join :: "string \<Rightarrow> string list \<Rightarrow> string" where
  "join sep [] = []"
| "join sep [x] = x"
| "join sep (x # y # ys) = x @ sep @ join sep (y # ys)"

text \<open>
  The fields of a \<open>LoopRegion\<close> that \<open>LoopScope\<close> reads. A \<open>CodeBlock\<close> is
  represented by its \<open>as_string\<close> text; \<open>None\<close> is \<open>None\<close>. A code block object is
  truthy, \<open>None\<close> and the empty string are falsy.
\<close>

record loop_region =
  update_statement :: "string option"
  init_statement :: "string option"
  loop_variable :: "string option"
  inverted :: bool
  update_before_condition :: bool
  loop_condition :: string

definition truthy_code :: "string option \<Rightarrow> bool" where
  "truthy_code c = (c \<noteq> None)"

definition truthy_str :: "string option \<Rightarrow> bool" where
  "truthy_str v = (v \<noteq> None \<and> v \<noteq> Some [])"

text \<open>
  The fields of a \<open>Memlet\<close> that the printing code reads: its data name, the printed
  subset, the printed other subset with the answer of
  \<open>any(s != 0 for s in other_subset.min_element())\<close>, the printed write-conflict
  resolution, and \<open>str(memlet)\<close>.
\<close>

record memlet =
  m_data :: string
  m_subset :: string
  m_other_subset :: "(string \<times> bool) option"
  m_wcr :: "string option"
  m_str :: string

datatype leaf_kind =
    ScheduleTreeNode
  | StateLabel string
  | GotoNode "string option"
  | AssignNode string string
  | BreakNode
  | ContinueNode
  | TaskletNode "string list" "string list"
  | LibraryCall string "(string \<times> string) list" "string list" "string list"
  | CopyNode string memlet
  | DynScopeCopyNode string memlet
  | ViewNode string memlet string
  | NView string memlet string
  | RefSetNode string memlet "string option"

datatype scope_kind =
    ScheduleTreeScope
  | ControlFlowScope
  | DataflowScope
  | GBlock
  | LoopScope loop_region
  | IfScope string
  | StateIfScope string
  | ElifScope string
  | ElseScope
  | MapScope "string list" "string list"
  | ConsumeScope string string "string option"
  | PipelineScope "string list" "string list"

text \<open>
  A node is an object with an identity (\<open>node_id\<close>) and a \<open>parent\<close> field that holds the
  identity of a scope or \<open>None\<close>; a scope owns the ordered list of its children. The
  tree owns every node once (a tree, not a graph).
\<close>

datatype stnode =
    Leaf (node_id: nat) (parent: "nat option") leaf_kind
  | Scope (node_id: nat) (parent: "nat option") scope_kind (children: "stnode list")

subsection \<open>Printing\<close>

fun leaf_as_string :: "nat \<Rightarrow> leaf_kind \<Rightarrow> string" where
  "leaf_as_string indent ScheduleTreeNode = indent_str indent @ ''UNSUPPORTED''"
| "leaf_as_string indent (StateLabel name) = indent_str indent @ ''label '' @ name @ '':''"
| "leaf_as_string indent (GotoNode target) =
     (let name = (if truthy_str target then the target else ''exit'')
      in indent_str indent @ ''goto '' @ name)"
| "leaf_as_string indent (AssignNode name v) =
     indent_str indent @ ''assign '' @ name @ '' = '' @ v"
| "leaf_as_string indent BreakNode = indent_str indent @ ''break''"
| "leaf_as_string indent ContinueNode = indent_str indent @ ''continue''"
| "leaf_as_string indent (TaskletNode ins outs) =
     (let in_memlets = join '', '' ins; out_memlets = join '', '' outs
      in if out_memlets = [] then indent_str indent @ ''tasklet('' @ in_memlets @ '')''
         else indent_str indent @ out_memlets @ '' = tasklet('' @ in_memlets @ '')'')"
| "leaf_as_string indent (LibraryCall libname props ins outs) =
     (let in_memlets = join '', '' ins; out_memlets = join '', '' outs;
          own_properties = join '', '' (map (\<lambda>(k, v). k @ ''='' @ v) props)
      in indent_str indent @ out_memlets @ '' = library '' @ libname @ ''['' @ own_properties
           @ '']('' @ in_memlets @ '')'')"
| "leaf_as_string indent (CopyNode target m) =
     (let offset = (case m_other_subset m of
                      Some (txt, nonzero) \<Rightarrow> if nonzero then ''['' @ txt @ '']'' else []
                    | None \<Rightarrow> []);
          wcr = (case m_wcr m of Some w \<Rightarrow> '' with '' @ w | None \<Rightarrow> [])
      in indent_str indent @ target @ offset @ '' = copy '' @ m_data m @ ''['' @ m_subset m
           @ '']'' @ wcr)"
| "leaf_as_string indent (DynScopeCopyNode target m) =
     indent_str indent @ target @ '' = dscopy '' @ m_data m @ ''['' @ m_subset m @ '']''"
| "leaf_as_string indent (ViewNode target m shape) =
     indent_str indent @ target @ '' = view '' @ m_str m @ '' as '' @ shape"
| "leaf_as_string indent (NView target m shape) =
     indent_str indent @ target @ '' = nview '' @ m_str m @ '' as '' @ shape"
| "leaf_as_string indent (RefSetNode target m src_code) =
     (case src_code of
        Some tname \<Rightarrow> indent_str indent @ target @ '' = refset from '' @ tname
      | None \<Rightarrow> indent_str indent @ target @ '' = refset to '' @ m_str m)"

text \<open>
  \<open>ScheduleTreeScope.as_string\<close>; the argument is the list
  \<open>[child.as_string(indent + 1) for child in self.children]\<close>.
\<close>

definition ScheduleTreeScope_as_string :: "nat \<Rightarrow> string list \<Rightarrow> string" where
  "ScheduleTreeScope_as_string indent rendered =
     (if rendered = [] then indent_str (indent + 1) @ ''pass''
      else join ''\<newline>'' rendered)"

definition check_loop_variant :: "loop_region \<Rightarrow> string" where
  "check_loop_variant loop =
     (if truthy_code (update_statement loop) \<and> truthy_code (init_statement loop)
         \<and> truthy_str (loop_variable loop)
      then (if inverted loop
            then (if update_before_condition loop then ''do-for-uncond-increment''
                  else ''do-for'')
            else ''for'')
      else (if inverted loop then ''do-while'' else ''while''))"

text \<open>
  \<open>LoopScope.as_string\<close>. Reading \<open>.as_string\<close> of a statement that is \<open>None\<close>
  raises; the three variants that read the init and update statements are only chosen
  when both are present, so \<open>the\<close> is applied to \<open>Some\<close> values only.
\<close>

definition LoopScope_as_string :: "loop_region \<Rightarrow> nat \<Rightarrow> string list \<Rightarrow> string" where
  "LoopScope_as_string loop indent rendered =
     (let loop_variant = check_loop_variant loop in
      if loop_variant = ''do-for-uncond-increment'' then
        (let pre_header = indent_str indent @ the (init_statement loop) @ ''\<newline>'';
             header = indent_str indent @ ''do:\<newline>'';
             pre_footer = indent_str (indent + 1) @ the (update_statement loop) @ ''\<newline>'';
             footer = indent_str indent @ ''while '' @ loop_condition loop
         in pre_header @ header @ ScheduleTreeScope_as_string indent rendered @ ''\<newline>''
              @ pre_footer @ footer)
      else if loop_variant = ''do-for'' then
        (let pre_header = indent_str indent @ the (init_statement loop) @ ''\<newline>'';
             header = indent_str indent @ ''while True:\<newline>'';
             pre_footer = indent_str (indent + 1) @ ''if (not '' @ loop_condition loop
                            @ ''):\<newline>'' @ indent_str (indent + 2) @ ''break\<newline>'';
             footer = indent_str (indent + 1) @ the (update_statement loop) @ ''\<newline>''
         in pre_header @ header @ ScheduleTreeScope_as_string indent rendered @ ''\<newline>''
              @ pre_footer @ footer)
      else if loop_variant = ''for'' then
        (let result = indent_str indent @ ''for '' @ the (init_statement loop) @ ''; ''
                        @ loop_condition loop @ ''; '' @ the (update_statement loop)
                        @ '':\<newline>''
         in result @ ScheduleTreeScope_as_string indent rendered)
      else if loop_variant = ''while'' then
        (let result = indent_str indent @ ''while '' @ loop_condition loop @ '':\<newline>''
         in result @ ScheduleTreeScope_as_string indent rendered)
      else
        (let header = indent_str indent @ ''do:\<newline>'';
             footer = indent_str indent @ ''while '' @ loop_condition loop
         in header @ ScheduleTreeScope_as_string indent rendered @ ''\<newline>'' @ footer))"

fun scope_as_string :: "scope_kind \<Rightarrow> nat \<Rightarrow> string list \<Rightarrow> string" where
  "scope_as_string ScheduleTreeScope indent rendered =
     ScheduleTreeScope_as_string indent rendered"
| "scope_as_string ControlFlowScope indent rendered =
     ScheduleTreeScope_as_string indent rendered"
| "scope_as_string DataflowScope indent rendered =
     ScheduleTreeScope_as_string indent rendered"
| "scope_as_string GBlock indent rendered =
     indent_str indent @ ''gblock:\<newline>'' @ ScheduleTreeScope_as_string indent rendered"
| "scope_as_string (LoopScope loop) indent rendered =
     LoopScope_as_string loop indent rendered"
| "scope_as_string (IfScope cond) indent rendered =
     indent_str indent @ ''if '' @ cond @ '':\<newline>''
       @ ScheduleTreeScope_as_string indent rendered"
| "scope_as_string (StateIfScope cond) indent rendered =
     indent_str indent @ ''stateif '' @ cond @ '':\<newline>''
       @ ScheduleTreeScope_as_string indent rendered"
| "scope_as_string (ElifScope cond) indent rendered =
     indent_str indent @ ''elif '' @ cond @ '':\<newline>''
       @ ScheduleTreeScope_as_string indent rendered"
| "scope_as_string ElseScope indent rendered =
     indent_str indent @ ''else:\<newline>'' @ ScheduleTreeScope_as_string indent rendered"
| "scope_as_string (MapScope params ranges) indent rendered =
     indent_str indent @ ''map '' @ join '', '' params @ '' in ['' @ join '', '' ranges
       @ '']:\<newline>'' @ ScheduleTreeScope_as_string indent rendered"
| "scope_as_string (ConsumeScope pe_index num_pes condition) indent rendered =
     (let cond = (case condition of None \<Rightarrow> ''stream not empty'' | Some c \<Rightarrow> c)
      in indent_str indent @ ''consume (PE '' @ pe_index @ '' out of '' @ num_pes
           @ '') while '' @ cond @ '':\<newline>''
           @ ScheduleTreeScope_as_string indent rendered)"
| "scope_as_string (PipelineScope params ranges) indent rendered =
     indent_str indent @ ''pipeline '' @ join '', '' params @ '' in ['' @ join '', '' ranges
       @ '']:\<newline>'' @ ScheduleTreeScope_as_string indent rendered"

fun as_string :: "nat \<Rightarrow> stnode \<Rightarrow> string" where
  "as_string indent (Leaf i p k) = leaf_as_string indent k"
| "as_string indent (Scope i p k cs) =
     scope_as_string k indent (map (as_string (indent + 1)) cs)"

subsection \<open>Visitors and transformers\<close>

text \<open>\<open>node.__class__.__name__\<close>, from which \<open>visit\<close> builds the method name.\<close>

fun class_name :: "stnode \<Rightarrow> string" where
  "class_name (Leaf i p ScheduleTreeNode) = ''ScheduleTreeNode''"
| "class_name (Leaf i p (StateLabel a)) = ''StateLabel''"
| "class_name (Leaf i p (GotoNode a)) = ''GotoNode''"
| "class_name (Leaf i p (AssignNode a b)) = ''AssignNode''"
| "class_name (Leaf i p BreakNode) = ''BreakNode''"
| "class_name (Leaf i p ContinueNode) = ''ContinueNode''"
| "class_name (Leaf i p (TaskletNode a b)) = ''TaskletNode''"
| "class_name (Leaf i p (LibraryCall a b c d)) = ''LibraryCall''"
| "class_name (Leaf i p (CopyNode a b)) = ''CopyNode''"
| "class_name (Leaf i p (DynScopeCopyNode a b)) = ''DynScopeCopyNode''"
| "class_name (Leaf i p (ViewNode a b c)) = ''ViewNode''"
| "class_name (Leaf i p (NView a b c)) = ''NView''"
| "class_name (Leaf i p (RefSetNode a b c)) = ''RefSetNode''"
| "class_name (Scope i p ScheduleTreeScope cs) = ''ScheduleTreeScope''"
| "class_name (Scope i p ControlFlowScope cs) = ''ControlFlowScope''"
| "class_name (Scope i p DataflowScope cs) = ''DataflowScope''"
| "class_name (Scope i p GBlock cs) = ''GBlock''"
| "class_name (Scope i p (LoopScope a) cs) = ''LoopScope''"
| "class_name (Scope i p (IfScope a) cs) = ''IfScope''"
| "class_name (Scope i p (StateIfScope a) cs) = ''StateIfScope''"
| "class_name (Scope i p (ElifScope a) cs) = ''ElifScope''"
| "class_name (Scope i p ElseScope cs) = ''ElseScope''"
| "class_name (Scope i p (MapScope a b) cs) = ''MapScope''"
| "class_name (Scope i p (ConsumeScope a b c) cs) = ''ConsumeScope''"
| "class_name (Scope i p (PipelineScope a b) cs) = ''PipelineScope''"

fun is_scope :: "stnode \<Rightarrow> bool" where
  "is_scope (Leaf i p k) = False"
| "is_scope (Scope i p k cs) = True"

text \<open>
  What a visit method hands back: \<open>None\<close>, one node, or a sequence of nodes.
\<close>

datatype visit_result = RNone | RNode stnode | RSeq "stnode list"

text \<open>
  A transformer object: its optional \<open>visit_scope\<close> method, its optional
  \<open>visit_<ClassName>\<close> methods (looked up by name, as \<open>getattr\<close> does), and a state
  \<open>'s\<close> for whatever the methods keep or change besides their result. A method is an
  arbitrary function of the node it is given.
\<close>

record 's transformer =
  visit_scope :: "('s \<Rightarrow> stnode \<Rightarrow> visit_result \<times> 's) option"
  visit_method :: "string \<Rightarrow> ('s \<Rightarrow> stnode \<Rightarrow> visit_result \<times> 's) option"

fun set_parent :: "nat \<Rightarrow> stnode \<Rightarrow> stnode" where
  "set_parent q (Leaf i p k) = Leaf i (Some q) k"
| "set_parent q (Scope i p k cs) = Scope i (Some q) k cs"

text \<open>
  \<open>ScheduleNodeTransformer.visit\<close> on a node, \<open>generic_visit\<close>, and the loop of
  \<open>generic_visit\<close> over \<open>node.children\<close> with its accumulator \<open>new_values\<close>. After
  the loop every new value gets \<open>val.parent = node\<close> and the children list is replaced.
\<close>

fun visit :: "'s transformer \<Rightarrow> stnode \<Rightarrow> 's \<Rightarrow> visit_result \<times> 's"
and generic_visit :: "'s transformer \<Rightarrow> stnode \<Rightarrow> 's \<Rightarrow> stnode \<times> 's"
and visit_children :: "'s transformer \<Rightarrow> stnode list \<Rightarrow> stnode list \<Rightarrow> 's \<Rightarrow> stnode list \<times> 's"
where
  "visit T node s =
     (if is_scope node \<and> visit_scope T \<noteq> None then the (visit_scope T) s node
      else case visit_method T (''visit_'' @ class_name node) of
             Some visitor \<Rightarrow> visitor s node
           | None \<Rightarrow> (case generic_visit T node s of (node', s') \<Rightarrow> (RNode node', s')))"
| "generic_visit T (Leaf i p k) s = (Leaf i p k, s)"
| "generic_visit T (Scope i p k cs) s =
     (case visit_children T cs [] s of
        (new_values, s') \<Rightarrow> (Scope i p k (map (set_parent i) new_values), s'))"
| "visit_children T [] new_values s = (new_values, s)"
| "visit_children T (v # rest) new_values s =
     (case visit T v s of
        (RNone, s') \<Rightarrow> visit_children T rest new_values s'
      | (RNode v', s') \<Rightarrow> visit_children T rest (new_values @ [v']) s'
      | (RSeq vs, s') \<Rightarrow> visit_children T rest (new_values @ vs) s')"

text \<open>The class itself, with no method overridden: every visit is \<open>generic_visit\<close>.\<close>

definition ScheduleNodeTransformer :: "unit transformer" where
  "ScheduleNodeTransformer = \<lparr>visit_scope = None, visit_method = (\<lambda>m. None)\<rparr>"

text \<open>
  Every child's \<open>parent\<close> field names the scope that holds it, at every depth.
\<close>

fun parents_consistent :: "stnode \<Rightarrow> bool" where
  "parents_consistent (Leaf i p k) = True"
| "parents_consistent (Scope i p k cs) =
     list_all (\<lambda>c. parent c = Some i \<and> parents_consistent c) cs"


text \<open>
  \<open>unlinked\<close> forgets every parent field (what is left is the nodes, their children
  and the order); \<open>relink\<close> writes into every descendant's parent field the scope that
  holds it.
\<close>

fun unlinked :: "stnode \<Rightarrow> stnode" where
  "unlinked (Leaf i p k) = Leaf i None k"
| "unlinked (Scope i p k cs) = Scope i None k (map unlinked cs)"

fun relink :: "stnode \<Rightarrow> stnode" where
  "relink (Leaf i p k) = Leaf i p k"
| "relink (Scope i p k cs) = Scope i p k (map (\<lambda>c. set_parent i (relink c)) cs)"

definition example_tree :: stnode where
  "example_tree = Scope 0 None GBlock
     [Leaf 1 (Some 0) (StateLabel ''s0''),
      Scope 2 (Some 0) (IfScope ''c'') [Leaf 3 (Some 2) BreakNode],
      Leaf 4 (Some 0) (GotoNode None)]"

text \<open>A transformer that deletes labels, splices two nodes for a goto and keeps the rest.\<close>

definition example_transformer :: "unit transformer" where
  "example_transformer = \<lparr>visit_scope = None,
     visit_method = (\<lambda>m. if m = ''visit_StateLabel'' then Some (\<lambda>s n. (RNone, s))
                         else if m = ''visit_GotoNode''
                         then Some (\<lambda>s n. (RSeq [Leaf 7 None BreakNode, n], s))
                         else None)\<rparr>"

section \<open>The frame code generator (dace/codegen/targets/framecode.py)\<close>

subsection \<open>Custom types in the file header\<close>

text \<open>
  A \<open>dtypes.typeclass\<close> value as \<open>generate_fileheader\<close> reads it: a pointer has the
  type it points to, a struct has its name and its fields (a dictionary, in insertion
  order), any other type has its C type name and the answer of
  \<open>hasattr(dtype, 'emit_definition')\<close>. A struct has the method, a pointer has not.
\<close>

datatype typeclass =
    Typeclass string bool
  | Pointer typeclass
  | Struct string "(string \<times> typeclass) list"

fun has_emit_definition :: "typeclass \<Rightarrow> bool" where
  "has_emit_definition (Typeclass ctype has_def) = has_def"
| "has_emit_definition (Pointer base) = False"
| "has_emit_definition (Struct name flds) = True"

text \<open>
  Membership in a Python set is decided by \<open>typeclass.__eq__\<close> and
  \<open>typeclass.__hash__\<close>, whose code is outside these files (the library compares the C
  type name). The model takes them as a parameter \<open>key\<close>: two types are equal for Python
  when they have the same key, so \<open>dtype in s\<close> holds when \<open>s\<close> has a member with the key
  of \<open>dtype\<close>, and \<open>s.add(dtype)\<close> leaves such a set as it is.
\<close>

definition set_contains :: "(typeclass \<Rightarrow> 'k) \<Rightarrow> typeclass set \<Rightarrow> typeclass \<Rightarrow> bool" where
  "set_contains key s dtype = (key dtype \<in> key ` s)"

definition set_add :: "(typeclass \<Rightarrow> 'k) \<Rightarrow> typeclass \<Rightarrow> typeclass set \<Rightarrow> typeclass set" where
  "set_add key dtype s = (if set_contains key s dtype then s else insert dtype s)"

text \<open>
  One \<open>write\<close> on the global stream: a literal text, or the text
  \<open>dtype.emit_definition()\<close> of a type (the method's body is outside these files).
\<close>

datatype chunk = Text string | Definition typeclass

text \<open>The set \<open>emitted\<close> of the closure and the stream it writes to.\<close>

record header_state =
  emitted :: "typeclass set"
  global_stream :: "chunk list"

definition write_chunk :: "chunk \<Rightarrow> header_state \<Rightarrow> header_state" where
  "write_chunk c st = st\<lparr>global_stream := global_stream st @ [c]\<rparr>"

text \<open>
  \<open>_emit_definitions\<close>: first the pointed-to type or the fields, then (in
  \<open>emit_own_definition\<close>) the part under \<open>if hasattr(dtype, 'emit_definition')\<close>.
\<close>

definition emit_own_definition ::
  "(typeclass \<Rightarrow> 'k) \<Rightarrow> typeclass \<Rightarrow> bool \<times> header_state \<Rightarrow> bool \<times> header_state" where
  "emit_own_definition key dtype r =
     (case r of (wrote_something, st) \<Rightarrow>
        if has_emit_definition dtype then
          (let st1 = (if \<not> wrote_something then write_chunk (Text []) st else st)
           in if \<not> set_contains key (emitted st1) dtype
              then (True, (write_chunk (Definition dtype) st1)
                            \<lparr>emitted := set_add key dtype (emitted st1)\<rparr>)
              else (wrote_something, st1))
        else (wrote_something, st))"

fun emit_definitions ::
  "(typeclass \<Rightarrow> 'k) \<Rightarrow> typeclass \<Rightarrow> bool \<Rightarrow> header_state \<Rightarrow> bool \<times> header_state"
and emit_field_definitions ::
  "(typeclass \<Rightarrow> 'k) \<Rightarrow> (string \<times> typeclass) list \<Rightarrow> bool \<Rightarrow> header_state \<Rightarrow> bool \<times> header_state"
where
  "emit_definitions key (Typeclass ctype has_def) wrote_something st =
     emit_own_definition key (Typeclass ctype has_def) (wrote_something, st)"
| "emit_definitions key (Pointer base) wrote_something st =
     emit_own_definition key (Pointer base) (emit_definitions key base wrote_something st)"
| "emit_definitions key (Struct name flds) wrote_something st =
     emit_own_definition key (Struct name flds)
       (emit_field_definitions key flds wrote_something st)"
| "emit_field_definitions key [] wrote_something st = (wrote_something, st)"
| "emit_field_definitions key ((fname, field) # rest) wrote_something st =
     (case emit_definitions key field wrote_something st of
        (wrote_something', st') \<Rightarrow> emit_field_definitions key rest wrote_something' st')"

text \<open>
  The loop \<open>for typ in datatypes\<close>; the list is the set \<open>datatypes\<close> in the order
  Python iterates it. \<open>custom_types\<close> is the whole section, with its closing write.
\<close>

fun emit_unique_definitions ::
  "(typeclass \<Rightarrow> 'k) \<Rightarrow> typeclass list \<Rightarrow> bool \<Rightarrow> header_state \<Rightarrow> bool \<times> header_state" where
  "emit_unique_definitions key [] wrote_something st = (wrote_something, st)"
| "emit_unique_definitions key (typ # rest) wrote_something st =
     (case emit_definitions key typ wrote_something st of
        (wrote_something', st') \<Rightarrow> emit_unique_definitions key rest wrote_something' st')"

definition custom_types :: "(typeclass \<Rightarrow> 'k) \<Rightarrow> typeclass list \<Rightarrow> chunk list" where
  "custom_types key datatypes =
     (case emit_unique_definitions key datatypes False \<lparr>emitted = {}, global_stream = []\<rparr> of
        (wrote_something, st) \<Rightarrow>
          global_stream (if wrote_something then write_chunk (Text []) st else st))"

text \<open>
  The set \<open>datatypes\<close> as the loop over \<open>sdfg.arrays_recursive()\<close> builds it: an entry
  is (SDFG id, array name, \<open>arr.dtype\<close> or \<open>None\<close> when \<open>arr\<close> is \<open>None\<close>), and every
  type is added with \<open>datatypes.add\<close>. \<open>array_dtypes\<close> is every type some array has.
\<close>

fun array_datatypes ::
  "(typeclass \<Rightarrow> 'k) \<Rightarrow> (nat \<times> string \<times> typeclass option) list \<Rightarrow> typeclass set \<Rightarrow> typeclass set" where
  "array_datatypes key [] datatypes = datatypes"
| "array_datatypes key ((sd, arrname, None) # rest) datatypes =
     array_datatypes key rest datatypes"
| "array_datatypes key ((sd, arrname, Some dtype) # rest) datatypes =
     array_datatypes key rest (set_add key dtype datatypes)"

definition array_dtypes :: "(nat \<times> string \<times> typeclass option) list \<Rightarrow> typeclass set" where
  "array_dtypes arrays = set (List.map_filter (\<lambda>(sd, arrname, dtype). dtype) arrays)"

text \<open>
  \<open>reached\<close> is a type with everything under it through pointers and struct fields; the
  custom types are those with a definition to emit. \<open>definitions_of\<close> is the types whose
  definitions a stream holds, in the order of the writes.
\<close>

fun reached :: "typeclass \<Rightarrow> typeclass set"
and reached_fields :: "(string \<times> typeclass) list \<Rightarrow> typeclass set" where
  "reached (Typeclass ctype has_def) = {Typeclass ctype has_def}"
| "reached (Pointer base) = insert (Pointer base) (reached base)"
| "reached (Struct name flds) = insert (Struct name flds) (reached_fields flds)"
| "reached_fields [] = {}"
| "reached_fields ((fname, field) # rest) = reached field \<union> reached_fields rest"

definition custom_of :: "typeclass set \<Rightarrow> typeclass set" where
  "custom_of ts = {t \<in> ts. has_emit_definition t}"

fun definitions_of :: "chunk list \<Rightarrow> typeclass list" where
  "definitions_of [] = []"
| "definitions_of (Text txt # rest) = definitions_of rest"
| "definitions_of (Definition t # rest) = t # definitions_of rest"

text \<open>
  The state of the closure is consistent when the definitions on the stream are those of
  the types in \<open>emitted\<close> and no two of them are equal for Python.
\<close>

definition stream_ok :: "(typeclass \<Rightarrow> 'k) \<Rightarrow> header_state \<Rightarrow> bool" where
  "stream_ok key st =
     (distinct (map key (definitions_of (global_stream st)))
      \<and> set (definitions_of (global_stream st)) = emitted st)"

text \<open>
  Example types: two structs, one nested in the other and behind a pointer, and a second,
  different struct that has the name of the first. \<open>ctype_of\<close> is the C type name.
\<close>

fun ctype_of :: "typeclass \<Rightarrow> string" where
  "ctype_of (Typeclass ctype has_def) = ctype"
| "ctype_of (Pointer base) = ctype_of base @ ''*''"
| "ctype_of (Struct name flds) = name"

definition vec3 :: typeclass where
  "vec3 = Struct ''vec3'' [(''x'', Typeclass ''double'' False), (''y'', Typeclass ''double'' False)]"

definition vec3_padded :: typeclass where
  "vec3_padded = Struct ''vec3'' [(''x'', Typeclass ''double'' False),
                                  (''y'', Typeclass ''double'' False),
                                  (''pad'', Typeclass ''double'' False)]"

definition particle :: typeclass where
  "particle = Struct ''particle'' [(''pos'', vec3), (''vel'', Pointer vec3)]"

definition example_arrays :: "(nat \<times> string \<times> typeclass option) list" where
  "example_arrays =
     [(0, ''A'', Some (Pointer particle)), (0, ''B'', Some vec3), (0, ''C'', None),
      (1, ''A'', Some (Typeclass ''int'' False)), (1, ''D'', Some particle), (1, ''E'', Some vec3)]"

definition example_arrays_same_name :: "(nat \<times> string \<times> typeclass option) list" where
  "example_arrays_same_name =
     [(0, ''B'', Some vec3), (0, ''C'', None), (1, ''F'', Some vec3_padded),
      (1, ''E'', Some vec3)]"

subsection \<open>Data descriptors\<close>

text \<open>
  Modelled from the spec: the enumerations \<open>dtypes.StorageType\<close> and
  \<open>dtypes.AllocationLifetime\<close> are declared outside these files. The lifetimes are the
  six policies of the data model and \<open>Undefined\<close>, which stands for any member the
  planner does not recognise; of the storage classes the code names \<open>CPU_ThreadLocal\<close>
  only. The record holds the fields of a data descriptor that the frame code reads:
  \<open>is_view\<close> is \<open>isinstance(desc, data.View)\<close>, \<open>dtype_bytes\<close> is
  \<open>desc.dtype.bytes\<close>. Sizes are integers here; symbolic sizes belong to the symbolic
  expression library.
\<close>

datatype storage_type =
    Default | Register | CPU_Pinned | CPU_Heap | CPU_ThreadLocal | GPU_Global | GPU_Shared
  | FPGA_Global | FPGA_Local | FPGA_Registers | FPGA_ShiftRegister | SVE_Register

fun storage_name :: "storage_type \<Rightarrow> string" where
  "storage_name Default = ''Default''"
| "storage_name Register = ''Register''"
| "storage_name CPU_Pinned = ''CPU_Pinned''"
| "storage_name CPU_Heap = ''CPU_Heap''"
| "storage_name CPU_ThreadLocal = ''CPU_ThreadLocal''"
| "storage_name GPU_Global = ''GPU_Global''"
| "storage_name GPU_Shared = ''GPU_Shared''"
| "storage_name FPGA_Global = ''FPGA_Global''"
| "storage_name FPGA_Local = ''FPGA_Local''"
| "storage_name FPGA_Registers = ''FPGA_Registers''"
| "storage_name FPGA_ShiftRegister = ''FPGA_ShiftRegister''"
| "storage_name SVE_Register = ''SVE_Register''"

datatype allocation_lifetime = Scope_lifetime | State_lifetime | SDFG_lifetime | Global_lifetime | Persistent_lifetime
  | External_lifetime | Undefined_lifetime

record data_desc =
  transient :: bool
  storage :: storage_type
  lifetime :: allocation_lifetime
  is_view :: bool
  total_size :: int
  dtype_bytes :: int

text \<open>\<open>str_nat\<close> is Python's decimal text of a non-negative integer.\<close>

definition digit_char :: "nat \<Rightarrow> char" where
  "digit_char d = ''0123456789'' ! d"

function str_nat :: "nat \<Rightarrow> string" where
  "str_nat n = (if n < 10 then [digit_char n] else str_nat (n div 10) @ [digit_char (n mod 10)])"
  by pat_completeness auto
termination
  by (relation "measure id") auto

declare str_nat.simps [simp del]

subsection \<open>External memory management\<close>

text \<open>
  An item of \<open>sdfg.arrays_recursive()\<close> as \<open>generate_external_memory_management\<close> reads
  it: \<open>subsdfg.cfg_id\<close>, the array name and the descriptor. \<open>ext_arrays\<close> is a
  \<open>defaultdict(list)\<close>: a list of (key, list) in the order the keys were first used.
\<close>

type_synonym array_entry = "nat \<times> string \<times> data_desc"

fun ext_arrays_append :: "storage_type \<Rightarrow> array_entry \<Rightarrow> (storage_type \<times> array_entry list) list
    \<Rightarrow> (storage_type \<times> array_entry list) list" where
  "ext_arrays_append k x [] = [(k, [x])]"
| "ext_arrays_append k x ((k', xs) # rest) =
     (if k = k' then (k', xs @ [x]) # rest else (k', xs) # ext_arrays_append k x rest)"

definition collect_step :: "(storage_type \<times> array_entry list) list \<Rightarrow> array_entry
    \<Rightarrow> (storage_type \<times> array_entry list) list" where
  "collect_step ext_arrays e =
     (case e of (subsdfg, aname, arr) \<Rightarrow>
        if lifetime arr = External_lifetime then ext_arrays_append (storage arr) (subsdfg, aname, arr) ext_arrays
        else ext_arrays)"

definition collect_external_arrays :: "array_entry list \<Rightarrow> (storage_type \<times> array_entry list) list" where
  "collect_external_arrays arrays_recursive = foldl collect_step [] arrays_recursive"

text \<open>The two loops over the arrays of one storage type: the size and the offsets.\<close>

fun total_bytes :: "array_entry list \<Rightarrow> int \<Rightarrow> int" where
  "total_bytes [] sz = sz"
| "total_bytes ((subsdfg, aname, arr) # rest) sz =
     total_bytes rest (sz + total_size arr * dtype_bytes arr)"

text \<open>
  What the function takes from outside these files: the mangled name of the state
  struct, the init signature of the SDFG, and the printer \<open>sym2cpp\<close>.
\<close>

record codegen_env =
  struct_name :: string
  initparams :: string
  sym2cpp :: "int \<Rightarrow> string"

definition allocname_of :: "nat \<Rightarrow> string \<Rightarrow> string" where
  "allocname_of cfg_id aname = ''__state->__'' @ str_nat cfg_id @ ''_'' @ aname"

definition bind_line :: "codegen_env \<Rightarrow> nat \<Rightarrow> string \<Rightarrow> int \<Rightarrow> string" where
  "bind_line env cfg_id aname offset =
     (let allocname = allocname_of cfg_id aname
      in allocname @ '' = decltype('' @ allocname @ '')(ptr + '' @ sym2cpp env offset @ '');'')"

fun bind_lines :: "codegen_env \<Rightarrow> array_entry list \<Rightarrow> int \<Rightarrow> string list" where
  "bind_lines env [] offset = []"
| "bind_lines env ((subsdfg, aname, arr) # rest) offset =
     bind_line env subsdfg aname offset
       # bind_lines env rest (offset + total_size arr * dtype_bytes arr)"

definition initparams_comma :: "codegen_env \<Rightarrow> string" where
  "initparams_comma env = (if initparams env \<noteq> [] then '', '' @ initparams env else [])"

definition size_query_function :: "codegen_env \<Rightarrow> storage_type \<Rightarrow> int \<Rightarrow> string" where
  "size_query_function env st sz =
     ''\<newline>DACE_EXPORTED size_t __dace_get_external_memory_size_'' @ storage_name st @ ''(''
       @ struct_name env @ '' *__state'' @ initparams_comma env @ '')\<newline>{\<newline>    return ''
       @ sym2cpp env sz @ '';\<newline>}\<newline>''"

definition pointer_set_header :: "codegen_env \<Rightarrow> storage_type \<Rightarrow> string" where
  "pointer_set_header env st =
     ''\<newline>DACE_EXPORTED void __dace_set_external_memory_'' @ storage_name st @ ''(''
       @ struct_name env @ '' *__state, char *ptr'' @ initparams_comma env @ '')\<newline>{''"

definition functions_for_storage :: "codegen_env \<Rightarrow> storage_type \<times> array_entry list \<Rightarrow> string list" where
  "functions_for_storage env item =
     (case item of (st, arrays) \<Rightarrow>
        [size_query_function env st (total_bytes arrays 0), pointer_set_header env st]
          @ bind_lines env arrays 0 @ [''}''])"

text \<open>The function; its result is the list of texts written to \<open>callsite_stream\<close>.\<close>

definition generate_external_memory_management :: "codegen_env \<Rightarrow> array_entry list \<Rightarrow> string list" where
  "generate_external_memory_management env arrays_recursive =
     (let ext_arrays = collect_external_arrays arrays_recursive
      in if ext_arrays = [] then []
         else concat (map (functions_for_storage env) ext_arrays))"

text \<open>
  The same in the words of the specification: the storage classes that have an External
  buffer, in the order of their first buffer; for one class its External buffers in
  declaration order, the sum of their byte sizes, and for the \<open>i\<close>-th buffer the sum of
  the byte sizes of the buffers before it.
\<close>

definition byte_size :: "array_entry \<Rightarrow> int" where
  "byte_size e = (case e of (subsdfg, aname, arr) \<Rightarrow> total_size arr * dtype_bytes arr)"

definition external_of_class :: "storage_type \<Rightarrow> array_entry list \<Rightarrow> array_entry list" where
  "external_of_class st arrays =
     filter (\<lambda>(subsdfg, aname, arr). lifetime arr = External_lifetime \<and> storage arr = st) arrays"

definition first_occurrences :: "'a list \<Rightarrow> 'a list" where
  "first_occurrences xs = rev (remdups (rev xs))"

definition external_classes :: "array_entry list \<Rightarrow> storage_type list" where
  "external_classes arrays =
     first_occurrences (map (\<lambda>(subsdfg, aname, arr). storage arr)
        (filter (\<lambda>(subsdfg, aname, arr). lifetime arr = External_lifetime) arrays))"

text \<open>
  The texts the specification describes, written out on their own: the size query of a
  class returning \<open>n\<close>, the opening of its pointer-bind function, and the statement that
  binds one buffer to the base pointer plus \<open>offset\<close>.
\<close>

definition spec_size_query :: "codegen_env \<Rightarrow> storage_type \<Rightarrow> int \<Rightarrow> string" where
  "spec_size_query env st n =
     ''\<newline>DACE_EXPORTED size_t __dace_get_external_memory_size_'' @ storage_name st @ ''(''
       @ struct_name env @ '' *__state''
       @ (if initparams env = [] then [] else '', '' @ initparams env)
       @ '')\<newline>{\<newline>    return '' @ sym2cpp env n @ '';\<newline>}\<newline>''"

definition spec_pointer_bind_open :: "codegen_env \<Rightarrow> storage_type \<Rightarrow> string" where
  "spec_pointer_bind_open env st =
     ''\<newline>DACE_EXPORTED void __dace_set_external_memory_'' @ storage_name st @ ''(''
       @ struct_name env @ '' *__state, char *ptr''
       @ (if initparams env = [] then [] else '', '' @ initparams env)
       @ '')\<newline>{''"

definition spec_bind :: "codegen_env \<Rightarrow> array_entry \<Rightarrow> int \<Rightarrow> string" where
  "spec_bind env e offset =
     (case e of (subsdfg, aname, arr) \<Rightarrow>
        ''__state->__'' @ str_nat subsdfg @ ''_'' @ aname
          @ '' = decltype(__state->__'' @ str_nat subsdfg @ ''_'' @ aname @ '')(ptr + ''
          @ sym2cpp env offset @ '');'')"

definition spec_functions_for_class :: "codegen_env \<Rightarrow> array_entry list \<Rightarrow> storage_type \<Rightarrow> string list" where
  "spec_functions_for_class env arrays st =
     (let bufs = external_of_class st arrays
      in [spec_size_query env st (sum_list (map byte_size bufs)), spec_pointer_bind_open env st]
           @ map (\<lambda>i. spec_bind env (bufs ! i) (sum_list (map byte_size (take i bufs))))
               [0..<length bufs]
           @ [''}''])"

definition str_int :: "int \<Rightarrow> string" where
  "str_int i = (if i < 0 then ''-'' @ str_nat (nat (- i)) else str_nat (nat i))"

definition example_env :: codegen_env where
  "example_env = \<lparr>struct_name = ''prog_state_t'', initparams = [], sym2cpp = str_int\<rparr>"

definition example_ext_arrays :: "array_entry list" where
  "example_ext_arrays =
     [(0, ''tmp'', \<lparr>transient = True, storage = CPU_Heap, lifetime = Scope_lifetime,
                    is_view = False, total_size = 10, dtype_bytes = 8\<rparr>),
      (1, ''ext'', \<lparr>transient = True, storage = CPU_Heap, lifetime = External_lifetime,
                    is_view = False, total_size = 1024, dtype_bytes = 4\<rparr>)]"

text \<open>
  A second example: three External buffers of 4096, 80 and 6 bytes in one storage class,
  declared in two SDFGs, an External buffer of another class between them, and a buffer
  that is not External.
\<close>

definition example_ext_arrays_shared :: "array_entry list" where
  "example_ext_arrays_shared =
     [(0, ''tmp'', \<lparr>transient = True, storage = CPU_Heap, lifetime = Scope_lifetime,
                    is_view = False, total_size = 10, dtype_bytes = 8\<rparr>),
      (1, ''ext'', \<lparr>transient = True, storage = CPU_Heap, lifetime = External_lifetime,
                    is_view = False, total_size = 1024, dtype_bytes = 4\<rparr>),
      (0, ''dev'', \<lparr>transient = True, storage = GPU_Global, lifetime = External_lifetime,
                    is_view = False, total_size = 16, dtype_bytes = 8\<rparr>),
      (2, ''buf'', \<lparr>transient = True, storage = CPU_Heap, lifetime = External_lifetime,
                    is_view = False, total_size = 10, dtype_bytes = 8\<rparr>),
      (2, ''idx'', \<lparr>transient = True, storage = CPU_Heap, lifetime = External_lifetime,
                    is_view = False, total_size = 3, dtype_bytes = 2\<rparr>)]"

subsection \<open>Dominators of the states that use a buffer\<close>

text \<open>The exceptions the frame code can end with.\<close>

datatype error =
    NotImplementedError string
  | TypeError string
  | KeyError
  | IndexError
  | AttributeError

text \<open>
  An access node: its identity in its state's graph (\<open>None\<close> for a node the planner
  makes with \<open>nodes.AccessNode(name)\<close>, which is in no graph) and its \<open>data\<close> name.
\<close>

datatype access_node = AccessNode (guid: "nat option") (data: string)

text \<open>
  What \<open>utils.get_control_flow_block_dominators\<close> (outside these files) fills in:
  the dictionaries \<open>idom\<close> and \<open>ipostdom\<close> and the \<open>defaultdict(set)\<close>s \<open>alldoms\<close>
  and \<open>allpostdoms\<close>. A block is its identity.
\<close>

record dominators =
  idom :: "nat \<rightharpoonup> nat"
  alldoms :: "nat \<Rightarrow> nat set"
  ipostdom :: "nat \<rightharpoonup> nat"
  allpostdoms :: "nat \<Rightarrow> nat set"

text \<open>\<open>for state in states: alldoms[state].add(state)\<close>, and the same for post-dominators.\<close>

definition add_self :: "nat list \<Rightarrow> (nat \<Rightarrow> nat set) \<Rightarrow> (nat \<Rightarrow> nat set)" where
  "add_self states doms = (\<lambda>b. if b \<in> set states then insert b (doms b) else doms b)"

definition dominator_message :: "string \<Rightarrow> string" where
  "dominator_message data_name =
     ''Could not find an appropriate dominator for allocation of '' @ [CHR 0x22] @ data_name
       @ [CHR 0x22]"

definition postdominator_message :: "string \<Rightarrow> string" where
  "postdominator_message data_name =
     ''Could not find an appropriate post-dominator for deallocation of '' @ [CHR 0x22]
       @ data_name @ [CHR 0x22]"

text \<open>
  The two \<open>while\<close> loops are the same loop on different dictionaries: while some state
  lacks the candidate among its dominators, fail if the candidate is its own immediate
  dominator, else move to the immediate dominator (\<open>KeyError\<close> when the dictionary has
  no entry). The loop may run forever on a dictionary with a cycle; not returning is
  \<open>None\<close>.
\<close>

partial_function (option) search_loop ::
  "(nat \<rightharpoonup> nat) \<Rightarrow> (nat \<Rightarrow> nat set) \<Rightarrow> nat list \<Rightarrow> string \<Rightarrow> nat \<Rightarrow> (error + nat) option" where
  "search_loop imm doms states msg cur =
     (if list_ex (\<lambda>n. cur \<notin> doms n) states then
        (case imm cur of
           None \<Rightarrow> Some (Inl KeyError)
         | Some up \<Rightarrow>
             if up = cur then Some (Inl (NotImplementedError msg))
             else search_loop imm doms states msg up)
      else Some (Inr cur))"

declare search_loop.simps [code]

text \<open>\<open>_get_dominator_and_postdominator\<close>; \<open>accesses[0]\<close> of an empty list raises.\<close>

definition get_dominator_and_postdominator ::
  "dominators \<Rightarrow> (nat \<times> access_node) list \<Rightarrow> (error + nat \<times> nat) option" where
  "get_dominator_and_postdominator D accesses =
     (case accesses of
        [] \<Rightarrow> Some (Inl IndexError)
      | first # _ \<Rightarrow>
          (let states = map fst accesses;
               data_name = data (snd first);
               alldoms' = add_self states (alldoms D);
               allpostdoms' = add_self states (allpostdoms D)
           in case search_loop (idom D) alldoms' states (dominator_message data_name) (hd states) of
                None \<Rightarrow> None
              | Some (Inl e) \<Rightarrow> Some (Inl e)
              | Some (Inr start_state) \<Rightarrow>
                  (case search_loop (ipostdom D) allpostdoms' states
                          (postdominator_message data_name) (last states) of
                     None \<Rightarrow> None
                   | Some (Inl e) \<Rightarrow> Some (Inl e)
                   | Some (Inr end_state) \<Rightarrow> Some (Inr (start_state, end_state)))))"



definition example_dominators :: dominators where
  "example_dominators =
     \<lparr>idom = [3 \<mapsto> 1, 1 \<mapsto> 1, 2 \<mapsto> 2],
      alldoms = (\<lambda>b. if b = 3 then {1} else {}),
      ipostdom = [3 \<mapsto> 3, 1 \<mapsto> 3, 2 \<mapsto> 2],
      allpostdoms = (\<lambda>b. if b = 1 then {3} else {})\<rparr>"



subsection \<open>Cleaning up the generated code\<close>

text \<open>
  The last lines of \<open>generate_code\<close>. A character is a code point below 256. 
  \<open>is_space\<close> is the class \<open>\s\<close> of \<open>re\<close> on \<open>str\<close>, which is also what \<open>str.strip()\<close>
  strips; \<open>is_label_start\<close> and \<open>is_label_char\<close> are \<open>[a-zA-Z_]\<close> and
  \<open>[a-zA-Z_0-9]\<close>.
\<close>

definition is_space :: "char \<Rightarrow> bool" where
  "is_space c = (c \<in> set [CHR 0x09, CHR 0x0A, CHR 0x0B, CHR 0x0C, CHR 0x0D, CHR 0x1C, CHR 0x1D,
                          CHR 0x1E, CHR 0x1F, CHR 0x20, CHR 0x85, CHR 0xA0])"

definition is_label_start :: "char \<Rightarrow> bool" where
  "is_label_start c = (c \<in> set ''abcdefghijklmnopqrstuvwxyzABCDEFGHIJKLMNOPQRSTUVWXYZ_'')"

definition is_label_char :: "char \<Rightarrow> bool" where
  "is_label_char c = (is_label_start c \<or> c \<in> set ''0123456789'')"

text \<open>\<open>generated_code.split('\n')\<close> and \<open>line.strip()\<close>.\<close>

fun split_lines :: "string \<Rightarrow> string list" where
  "split_lines [] = [[]]"
| "split_lines (c # cs) =
     (if c = CHR ''\<newline>'' then [] # split_lines cs
      else (case split_lines cs of l # ls \<Rightarrow> (c # l) # ls | [] \<Rightarrow> [[c]]))"

definition strip :: "string \<Rightarrow> string" where
  "strip s = rev (dropWhile is_space (rev (dropWhile is_space s)))"

text \<open>
  \<open>re.findall(r'goto (.*?);', generated_code)\<close>. \<open>match_goto\<close> matches the pattern
  at the start of a text: \<open>goto\<close> and a space, then the shortest run of characters other
  than a newline that is followed by a semicolon; its result is the group. \<open>findall\<close>
  tries every position from the left and goes on after a match.
\<close>

definition match_goto :: "string \<Rightarrow> string option" where
  "match_goto s =
     (if prefix ''goto '' s then
        (let rest = drop 5 s;
             target = takeWhile (\<lambda>c. c \<noteq> CHR '';'' \<and> c \<noteq> CHR ''\<newline>'') rest
         in case drop (length target) rest of
              c # _ \<Rightarrow> if c = CHR '';'' then Some target else None
            | [] \<Rightarrow> None)
      else None)"

function findall_goto :: "string \<Rightarrow> string list" where
  "findall_goto s =
     (if s = [] then []
      else case match_goto s of
             Some target \<Rightarrow> target # findall_goto (drop (6 + length target) s)
           | None \<Rightarrow> findall_goto (tl s))"
  by pat_completeness auto
termination
  by (relation "measure length") auto

text \<open>\<open>re.match(r'^\s*;\s*', line)\<close>: the pattern has no end anchor.\<close>

definition is_empty_statement :: "string \<Rightarrow> bool" where
  "is_empty_statement line = (case dropWhile is_space line of c # _ \<Rightarrow> c = CHR '';'' | [] \<Rightarrow> False)"

text \<open>
  \<open>re.findall(r'^\s*([a-zA-Z_][a-zA-Z_0-9]*):\s*[;]?\s*////.*$', line)\<close> on a line (a text
  without newline): the list of the one group when the line matches, else the empty
  list. No step of this pattern has two ways to match, so it is read from left to right.
\<close>

definition findall_label :: "string \<Rightarrow> string list" where
  "findall_label line =
     (let s1 = dropWhile is_space line in
      case s1 of
        [] \<Rightarrow> []
      | c # _ \<Rightarrow>
          if is_label_start c then
            (let name = takeWhile is_label_char s1;
                 s2 = dropWhile is_label_char s1
             in case s2 of
                  [] \<Rightarrow> []
                | d # s3 \<Rightarrow>
                    if d = CHR '':'' then
                      (let s4 = dropWhile is_space s3;
                           s5 = (case s4 of [] \<Rightarrow> s4 | e # r \<Rightarrow> if e = CHR '';'' then r else s4);
                           s6 = dropWhile is_space s5
                       in if prefix ''////'' s6 then [name] else [])
                    else [])
          else [])"

text \<open>\<open>needle in text\<close> on strings.\<close>

fun contains :: "string \<Rightarrow> string \<Rightarrow> bool" where
  "contains needle [] = (needle = [])"
| "contains needle (c # cs) = (prefix needle (c # cs) \<or> contains needle cs)"

text \<open>
  One pass of the loop over the lines, on the pair (\<open>clean_code\<close>, \<open>last_line\<close>);
  \<open>clean_code[:-len(last_line) - 1]\<close> is a \<open>take\<close>. 
\<close>

definition cleanup_line :: "string list \<Rightarrow> string \<times> string \<Rightarrow> string \<Rightarrow> string \<times> string" where
  "cleanup_line gotos st line =
     (case st of (clean_code, last_line) \<Rightarrow>
        if strip line = [] then (clean_code, last_line)
        else if is_empty_statement line then (clean_code, last_line)
        else
          (let label = findall_label line in
           if length label > 0 \<and> hd label \<notin> set gotos then (clean_code, [])
           else if length label > 0 \<and> contains (''goto '' @ hd label @ '';'') last_line
                   \<and> count_list gotos (hd label) = 1
           then (take (length clean_code - (length last_line + 1)) clean_code, [])
           else (clean_code @ line @ ''\<newline>'', line)))"

definition clean_up_generated_code :: "string \<Rightarrow> string" where
  "clean_up_generated_code generated_code =
     (let gotos = findall_goto generated_code
      in fst (foldl (cleanup_line gotos) ([], []) (split_lines generated_code)))"

subsection \<open>The program as the allocation planner reads it\<close>

text \<open>
  Objects are referred to by identity: an SDFG by its \<open>cfg_id\<close>, a state and a node by a
  number. A node of a state's graph is an access node with its \<open>data\<close> name, a scope
  entry node, or any other node.
\<close>

datatype graph_node = Access nat string | Entry nat | Other nat

text \<open>
  A state: its SDFG (\<open>state.parent\<close>), \<open>state.nodes()\<close>, \<open>state.entry_node(node)\<close>
  (which is \<open>state.scope_dict()[node]\<close>; \<open>None\<close> at the top level of the state), and
  the union of \<open>e.data.free_symbols\<close> over \<open>state.parent_graph.all_edges(state)\<close>.
\<close>

record sdfg_state =
  state_parent :: nat
  state_nodes :: "graph_node list"
  entry_node :: "nat \<Rightarrow> nat option"
  edge_free_symbols :: "string list"

text \<open>
  An SDFG: the dictionary \<open>arrays\<close>, the keys of \<open>constants_prop\<close>, its place in the
  parent (\<open>parent_nsdfg_node\<close>, \<open>parent\<close> and \<open>parent_sdfg\<close>, all three \<open>None\<close> for the
  top-level SDFG), and the answers of calls whose code is outside these files:
  \<open>shared_transients(check_toplevel=False, include_nested_data=True)\<close>,
  \<open>symbols_and_constants(sdfg)\<close>, \<open>blockorder_topological_sort(sdfg,
  ignore_nonstate_blocks=True)\<close>, \<open>states()\<close>, \<open>free_symbols(isedge.data)\<close> for every
  edge of \<open>all_interstate_edges()\<close>, and \<open>used_symbols(all_symbols=True,
  with_contents=False)\<close> for every region of \<open>all_control_flow_regions()\<close>.
\<close>

record sdfg =
  sdfg_arrays :: "(string \<times> data_desc) list"
  constants_prop :: "string list"
  parent_nsdfg :: "(nat \<times> nat \<times> nat) option"
  shared_transients :: "string list"
  symbols_and_constants :: "string list"
  topological_states :: "nat list"
  sdfg_states :: "nat list"
  interstate_edge_symbols :: "string list list"
  region_used_symbols :: "string list list"

text \<open>
  The program: the top-level SDFG, \<open>top_sdfg.all_sdfgs_recursive()\<close>,
  \<open>top_sdfg.arrays_recursive(include_nested_data=True)\<close>, the objects behind the
  identities, and the schedule of every scope entry node (a member of
  \<open>dtypes.ScheduleType\<close>, by its name).
\<close>

record program =
  top_sdfg :: nat
  all_sdfgs_recursive :: "nat list"
  arrays_recursive :: "(nat \<times> string \<times> data_desc) list"
  sdfg_of :: "nat \<Rightarrow> sdfg"
  state_of :: "nat \<Rightarrow> sdfg_state"
  entry_schedule :: "nat \<Rightarrow> string"

text \<open>A scope: what \<open>alloc_scope\<close> and the keys of \<open>to_allocate\<close> hold.\<close>

datatype scope = SDFG_scope nat | State_scope nat | Entry_scope nat

fun is_entry_scope :: "scope \<Rightarrow> bool" where
  "is_entry_scope (Entry_scope e) = True"
| "is_entry_scope sc = False"

fun is_state_scope :: "scope \<Rightarrow> bool" where
  "is_state_scope (State_scope s) = True"
| "is_state_scope sc = False"

fun is_sdfg_scope :: "scope \<Rightarrow> bool" where
  "is_sdfg_scope (SDFG_scope i) = True"
| "is_sdfg_scope sc = False"

text \<open>
  The functions of other modules that the planner calls: \<open>dtypes.can_allocate\<close>,
  \<open>dtypes.FPGA_STORAGES\<close> and \<open>dtypes.GPU_STORAGES\<close>, \<open>sdscope.is_devicelevel_fpga\<close>
  and \<open>is_devicelevel_gpu\<close>, \<open>sdscope.common_parent_scope\<close> (on the scope dictionary
  of a state), \<open>utils.is_nonfree_sym_dependent\<close>, the reachability pass,
  \<open>utils.get_control_flow_block_dominators\<close> and \<open>desc.as_arg\<close>.
\<close>

record externals =
  can_allocate :: "storage_type \<Rightarrow> string \<Rightarrow> bool"
  fpga_storages :: "storage_type list"
  gpu_storages :: "storage_type list"
  is_devicelevel_fpga :: "nat option \<Rightarrow> nat option \<Rightarrow> nat option \<Rightarrow> bool"
  is_devicelevel_gpu :: "nat option \<Rightarrow> nat option \<Rightarrow> nat option \<Rightarrow> bool"
  common_parent_scope :: "nat \<Rightarrow> scope \<Rightarrow> scope \<Rightarrow> scope option"
  is_nonfree_sym_dependent :: "access_node option \<Rightarrow> data_desc \<Rightarrow> nat option \<Rightarrow> string list \<Rightarrow> bool"
  reachability :: "nat \<Rightarrow> nat \<Rightarrow> nat set"
  block_dominators :: "nat \<Rightarrow> dominators"
  as_arg :: "data_desc \<Rightarrow> string \<Rightarrow> string"

subsection \<open>The allocation plan\<close>

text \<open>
  An action is the tuple (SDFG, state, access node, declare, allocate, deallocate).
  \<open>to_allocate\<close> is a \<open>defaultdict(list)\<close> that is only appended to: it is kept as the
  list of (key, action) in the order of the appends, so that the list under a key is the
  actions with that key, in order. A key is a scope or \<open>None\<close>. \<open>where_allocated\<close> maps
  (SDFG, name) to an SDFG or \<open>None\<close>.
\<close>

type_synonym access_instance = "nat \<times> access_node"

type_synonym action = "nat \<times> nat option \<times> access_node option \<times> bool \<times> bool \<times> bool"

record planner =
  statestruct :: "string list"
  to_allocate :: "(scope option \<times> action) list"
  where_allocated :: "nat \<times> string \<Rightarrow> nat option option"

definition to_allocate_at :: "planner \<Rightarrow> scope option \<Rightarrow> action list" where
  "to_allocate_at pl key = map snd (filter (\<lambda>(k, a). k = key) (to_allocate pl))"

definition append_action :: "scope option \<Rightarrow> action \<Rightarrow> planner \<Rightarrow> planner" where
  "append_action key a pl = pl\<lparr>to_allocate := to_allocate pl @ [(key, a)]\<rparr>"

definition set_where_allocated :: "nat \<times> string \<Rightarrow> nat option \<Rightarrow> planner \<Rightarrow> planner" where
  "set_where_allocated k v pl = pl\<lparr>where_allocated := (where_allocated pl)(k := Some v)\<rparr>"

fun allocates :: "scope option \<times> action \<Rightarrow> bool" where
  "allocates (key, (sd, st, node, decl, alloc, dealloc)) = alloc"

fun deallocates :: "scope option \<times> action \<Rightarrow> bool" where
  "deallocates (key, (sd, st, node, decl, alloc, dealloc)) = dealloc"

subsection \<open>Access instances\<close>

definition data_nodes :: "sdfg_state \<Rightarrow> access_node list" where
  "data_nodes st =
     concat (map (\<lambda>n. case n of Access g d \<Rightarrow> [AccessNode (Some g) d] | _ \<Rightarrow> []) (state_nodes st))"

text \<open>
  The list \<open>access_instances[sdfg.cfg_id][name]\<close>: for every state in topological
  order, the data nodes of that name (when it is a key of \<open>arrays\<close>), then one new access
  node when the name is a free symbol of an edge around the state.
\<close>

fun instances_in_states :: "program \<Rightarrow> string list \<Rightarrow> string \<Rightarrow> nat list \<Rightarrow> access_instance list" where
  "instances_in_states P array_names name [] = []"
| "instances_in_states P array_names name (s # rest) =
     (let st = state_of P s
      in map (\<lambda>node. (s, node))
           (filter (\<lambda>node. data node \<in> set array_names \<and> data node = name) (data_nodes st))
         @ (if name \<in> set (edge_free_symbols st) \<and> name \<in> set array_names
            then [(s, AccessNode None name)] else [])
         @ instances_in_states P array_names name rest)"

definition access_instances :: "program \<Rightarrow> nat \<Rightarrow> string \<Rightarrow> access_instance list" where
  "access_instances P cfg name =
     (let sd = sdfg_of P cfg
      in instances_in_states P (map fst (sdfg_arrays sd)) name (topological_states sd))"

text \<open>\<open>instances.get(name, [(None, None)])[0]\<close> and \<open>[-1]\<close>.\<close>

definition first_instance :: "access_instance list \<Rightarrow> nat option \<times> access_node option" where
  "first_instance insts = (case insts of [] \<Rightarrow> (None, None) | (s, n) # _ \<Rightarrow> (Some s, Some n))"

definition last_instance :: "access_instance list \<Rightarrow> nat option \<times> access_node option" where
  "last_instance insts =
     (if insts = [] then (None, None) else (Some (fst (last insts)), Some (snd (last insts))))"

subsection \<open>Where a descriptor may be allocated\<close>

definition TOP_SCHEDULE :: string where
  "TOP_SCHEDULE = ''Sequential''"

text \<open>
  \<open>_get_schedule\<close>. It goes up through the nesting of SDFGs, so it is a partial
  function: not returning is \<open>None\<close>.
\<close>

partial_function (option) get_schedule :: "program \<Rightarrow> scope option \<Rightarrow> string option" where
  "get_schedule P sc =
     (case sc of
        None \<Rightarrow> Some TOP_SCHEDULE
      | Some (Entry_scope e) \<Rightarrow> Some (entry_schedule P e)
      | Some (State_scope s) \<Rightarrow>
          (case parent_nsdfg (sdfg_of P (state_parent (state_of P s))) of
             None \<Rightarrow> Some TOP_SCHEDULE
           | Some (pnode, pstate, psdfg) \<Rightarrow>
               (case entry_node (state_of P pstate) pnode of
                  Some pscope \<Rightarrow> Some (entry_schedule P pscope)
                | None \<Rightarrow> get_schedule P (Some (State_scope pstate))))
      | Some (SDFG_scope i) \<Rightarrow>
          (case parent_nsdfg (sdfg_of P i) of
             None \<Rightarrow> Some TOP_SCHEDULE
           | Some (pnode, pstate, psdfg) \<Rightarrow>
               (case entry_node (state_of P pstate) pnode of
                  Some pscope \<Rightarrow> Some (entry_schedule P pscope)
                | None \<Rightarrow> get_schedule P (Some (State_scope pstate)))))"

declare get_schedule.simps [code]

text \<open>\<open>_can_allocate\<close>, given the schedule.\<close>

definition can_allocate_with :: "externals \<Rightarrow> nat option \<Rightarrow> nat option \<Rightarrow> data_desc \<Rightarrow> scope option \<Rightarrow> string \<Rightarrow> bool" where
  "can_allocate_with X sd st desc sc schedule =
     (if can_allocate X (storage desc) schedule then True
      else
        (let node = (case sc of Some (Entry_scope e) \<Rightarrow> Some e | _ \<Rightarrow> None);
             cstate = (case sc of Some (State_scope s) \<Rightarrow> Some s | _ \<Rightarrow> st);
             csdfg = (case sc of Some (SDFG_scope i) \<Rightarrow> Some i | _ \<Rightarrow> sd)
         in if storage desc \<in> set (fpga_storages X) then is_devicelevel_fpga X csdfg cstate node
            else if storage desc \<in> set (gpu_storages X) then is_devicelevel_gpu X csdfg cstate node
            else False))"

definition can_allocate_in :: "program \<Rightarrow> externals \<Rightarrow> nat option \<Rightarrow> nat option \<Rightarrow> data_desc \<Rightarrow> scope option \<Rightarrow> bool option" where
  "can_allocate_in P X sd st desc sc =
     map_option (can_allocate_with X sd st desc sc) (get_schedule P sc)"

text \<open>
  The loop \<open>while not self._can_allocate(cursdfg, curstate, desc, curscope)\<close>, on the
  triple (\<open>cursdfg\<close>, \<open>curstate\<close>, \<open>curscope\<close>). Reading the entry node of a scope when
  \<open>curstate\<close> is \<open>None\<close> raises.
\<close>

partial_function (option) climb ::
  "program \<Rightarrow> externals \<Rightarrow> data_desc \<Rightarrow> nat option \<Rightarrow> nat option \<Rightarrow> scope option
     \<Rightarrow> (error + nat option \<times> nat option \<times> scope option) option" where
  "climb P X desc cursdfg curstate curscope =
     (case can_allocate_in P X cursdfg curstate desc curscope of
        None \<Rightarrow> None
      | Some ok \<Rightarrow>
          if ok then Some (Inr (cursdfg, curstate, curscope))
          else
            (case curscope of
               None \<Rightarrow> Some (Inr (cursdfg, curstate, curscope))
             | Some (Entry_scope e) \<Rightarrow>
                 (case curstate of
                    None \<Rightarrow> Some (Inl AttributeError)
                  | Some s \<Rightarrow>
                      (case entry_node (state_of P s) e of
                         Some e' \<Rightarrow> climb P X desc cursdfg curstate (Some (Entry_scope e'))
                       | None \<Rightarrow> climb P X desc cursdfg curstate (Some (State_scope s))))
             | Some (State_scope s) \<Rightarrow>
                 (case parent_nsdfg (sdfg_of P (state_parent (state_of P s))) of
                    None \<Rightarrow> climb P X desc None None None
                  | Some (pnode, pstate, psdfg) \<Rightarrow>
                      climb P X desc (Some psdfg) (Some pstate)
                        (map_option Entry_scope (entry_node (state_of P pstate) pnode)))
             | Some (SDFG_scope i) \<Rightarrow>
                 (case parent_nsdfg (sdfg_of P i) of
                    None \<Rightarrow> climb P X desc None None None
                  | Some (pnode, pstate, psdfg) \<Rightarrow>
                      climb P X desc (Some psdfg) (Some pstate)
                        (map_option Entry_scope (entry_node (state_of P pstate) pnode)))))"

declare climb.simps [code]

subsection \<open>The candidate scope of a descriptor\<close>

text \<open>\<open>node.root_data\<close> and \<open>name.split('.')[0]\<close>: the name up to its first dot.\<close>

definition root_data :: "string \<Rightarrow> string" where
  "root_data d = takeWhile (\<lambda>c. c \<noteq> CHR ''.'') d"

text \<open>
  State lifetime: the loop over \<open>sdfg.states()\<close> on (\<open>curstate\<close>, \<open>multistate\<close>).
\<close>

fun state_lifetime_scan :: "program \<Rightarrow> string \<Rightarrow> nat list \<Rightarrow> nat option \<Rightarrow> nat option \<times> bool" where
  "state_lifetime_scan P name [] curstate = (curstate, False)"
| "state_lifetime_scan P name (s # rest) curstate =
     (if list_ex (\<lambda>n. data n = name) (data_nodes (state_of P s)) then
        (if curstate \<noteq> None then (curstate, True)
         else state_lifetime_scan P name rest (Some s))
      else state_lifetime_scan P name rest curstate)"

text \<open>
  Scope lifetime: the loop over the nodes of one state, on (\<open>curscope\<close>, \<open>curstate\<close>,
  \<open>multistate\<close>); it ends early when the name was already found in another state.
\<close>

fun scope_lifetime_nodes ::
  "program \<Rightarrow> externals \<Rightarrow> string \<Rightarrow> nat \<Rightarrow> graph_node list
     \<Rightarrow> scope option \<times> nat option \<times> bool \<Rightarrow> scope option \<times> nat option \<times> bool" where
  "scope_lifetime_nodes P X name s [] acc = acc"
| "scope_lifetime_nodes P X name s (Entry e # rest) acc = scope_lifetime_nodes P X name s rest acc"
| "scope_lifetime_nodes P X name s (Other e # rest) acc = scope_lifetime_nodes P X name s rest acc"
| "scope_lifetime_nodes P X name s (Access g d # rest) (curscope, curstate, multistate) =
     (if root_data d \<noteq> name then
        scope_lifetime_nodes P X name s rest (curscope, curstate, multistate)
      else if curstate \<noteq> None \<and> curstate \<noteq> Some s then (curscope, curstate, True)
      else
        (let sc = (case entry_node (state_of P s) g of
                     Some e \<Rightarrow> Entry_scope e
                   | None \<Rightarrow> State_scope s)
         in case curscope of
              None \<Rightarrow> scope_lifetime_nodes P X name s rest (Some sc, Some s, multistate)
            | Some cur \<Rightarrow>
                if is_state_scope sc then
                  scope_lifetime_nodes P X name s rest (Some sc, Some s, multistate)
                else if (case cur of
                           State_scope s' \<Rightarrow>
                             (case sc of
                                Entry_scope e \<Rightarrow> Entry e \<in> set (state_nodes (state_of P s'))
                              | _ \<Rightarrow> False)
                         | _ \<Rightarrow> False) then
                  scope_lifetime_nodes P X name s rest (curscope, Some s, multistate)
                else
                  scope_lifetime_nodes P X name s rest
                    (common_parent_scope X s sc cur, Some s, multistate)))"

text \<open>The loop over \<open>sdfg.states()\<close> around it.\<close>

fun scope_lifetime_states ::
  "program \<Rightarrow> externals \<Rightarrow> string \<Rightarrow> nat list
     \<Rightarrow> scope option \<times> nat option \<times> bool \<Rightarrow> scope option \<times> nat option \<times> bool" where
  "scope_lifetime_states P X name [] acc = acc"
| "scope_lifetime_states P X name (s # rest) (curscope, curstate, multistate) =
     (if multistate then (curscope, curstate, multistate)
      else
        (case scope_lifetime_nodes P X name s (state_nodes (state_of P s))
                (curscope, curstate, multistate) of
           (curscope', curstate', multistate') \<Rightarrow>
             if multistate' then (curscope', curstate', multistate')
             else scope_lifetime_states P X name rest (curscope', curstate', multistate')))"

text \<open>
  Does the name appear in inter-state edges or in the symbols of a control flow region?
\<close>

definition used_between_states :: "sdfg \<Rightarrow> string \<Rightarrow> bool" where
  "used_between_states sd name =
     (list_ex (\<lambda>syms. name \<in> set syms) (interstate_edge_symbols sd)
      \<or> list_ex (\<lambda>syms. name \<in> set syms) (region_used_symbols sd))"

fun lifetime_str :: "allocation_lifetime \<Rightarrow> string" where
  "lifetime_str Scope_lifetime = ''AllocationLifetime.Scope''"
| "lifetime_str State_lifetime = ''AllocationLifetime.State''"
| "lifetime_str SDFG_lifetime = ''AllocationLifetime.SDFG''"
| "lifetime_str Global_lifetime = ''AllocationLifetime.Global''"
| "lifetime_str Persistent_lifetime = ''AllocationLifetime.Persistent''"
| "lifetime_str External_lifetime = ''AllocationLifetime.External''"
| "lifetime_str Undefined_lifetime = ''AllocationLifetime.Undefined''"

text \<open>
  The chain of cases that sets \<open>alloc_scope\<close> and \<open>alloc_state\<close>. The result is an
  error, or \<open>None\<close> when the loop goes on to the next descriptor (the descriptor is
  unused, or \<open>alloc_scope\<close> is \<open>None\<close>), or the pair.
\<close>

definition candidate_scope ::
  "program \<Rightarrow> externals \<Rightarrow> nat \<Rightarrow> string \<Rightarrow> data_desc \<Rightarrow> allocation_lifetime
     \<Rightarrow> nat option \<times> access_node option \<Rightarrow> error + (scope \<times> nat option) option" where
  "candidate_scope P X cfg name desc top_lifetime first =
     (let sd = sdfg_of P cfg in
      case first of (first_state_instance, first_node_instance) \<Rightarrow>
      if name \<in> set (shared_transients sd) \<or> top_lifetime = SDFG_lifetime then
        (if first_node_instance = None then Inr None
         else Inr (Some (SDFG_scope cfg, first_state_instance)))
      else if top_lifetime = State_lifetime then
        (case state_lifetime_scan P name (sdfg_states sd) None of
           (curstate, multistate) \<Rightarrow>
             if multistate then Inr (Some (SDFG_scope cfg, None))
             else (case curstate of
                     None \<Rightarrow> Inr None
                   | Some s \<Rightarrow> Inr (Some (State_scope s, Some s))))
      else if top_lifetime = Scope_lifetime then
        (case scope_lifetime_states P X name (sdfg_states sd)
                (None, None, used_between_states sd name) of
           (curscope, curstate, multistate) \<Rightarrow>
             if multistate then Inr (Some (SDFG_scope cfg, None))
             else (case curscope of
                     None \<Rightarrow> Inr None
                   | Some sc \<Rightarrow> Inr (Some (sc, curstate))))
      else Inl (TypeError (''Unrecognized allocation lifetime '' @ [CHR 0x22]
                  @ lifetime_str (lifetime desc) @ [CHR 0x22])))"

subsection \<open>The actions of one descriptor\<close>

text \<open>
  \<open>inst not in reachability[sdfg.cfg_id][first_state_instance]\<close>: \<open>inst\<close> is a tuple
  (state, node) and the set holds states, and a tuple is equal to no state.
\<close>

definition tuple_in_states :: "access_instance \<Rightarrow> nat set \<Rightarrow> bool" where
  "tuple_in_states inst reachable = False"

fun view_actions :: "nat \<Rightarrow> access_instance list \<Rightarrow> (scope option \<times> action) list" where
  "view_actions cfg [] = []"
| "view_actions cfg ((s, n) # rest) =
     (Some (State_scope s), (cfg, Some s, Some n, False, True, False))
       # (Some (State_scope s), (cfg, Some s, Some n, False, False, True))
       # view_actions cfg rest"

text \<open>
  Lines 751 to 796: the actions and the entry of \<open>where_allocated\<close>, from the scope the
  climb ended with (\<open>top_sdfg\<close> when it ended with \<open>None\<close>).
\<close>

definition emit_actions ::
  "program \<Rightarrow> externals \<Rightarrow> nat \<Rightarrow> string \<Rightarrow> data_desc \<Rightarrow> access_instance list
     \<Rightarrow> nat option \<Rightarrow> scope \<Rightarrow> planner \<Rightarrow> (error + planner) option" where
  "emit_actions P X cfg name desc insts cursdfg curscope pl =
     (case first_instance insts of (first_state_instance, first_node_instance) \<Rightarrow>
      case last_instance insts of (last_state_instance, last_node_instance) \<Rightarrow>
      let fsymbols = symbols_and_constants (sdfg_of P cfg);
          record_where = (\<lambda>sc pl'. set_where_allocated (cfg, name)
                             (case sc of Some (SDFG_scope i) \<Rightarrow> Some i | _ \<Rightarrow> cursdfg) pl')
      in
      if \<not> is_entry_scope curscope
         \<and> is_nonfree_sym_dependent X first_node_instance desc first_state_instance fsymbols
      then
        (if first_state_instance \<noteq> last_state_instance then
           (if is_view desc then
              Some (Inr (set_where_allocated (cfg, name) cursdfg
                           (pl\<lparr>to_allocate := to_allocate pl @ view_actions cfg insts\<rparr>)))
            else if list_ex (\<lambda>inst. \<not> tuple_in_states inst
                                (reachability X cfg (the first_state_instance))) insts
            then
              (case get_dominator_and_postdominator (block_dominators X cfg) insts of
                 None \<Rightarrow> None
               | Some (Inl e) \<Rightarrow> Some (Inl e)
               | Some (Inr (start_state, end_state)) \<Rightarrow>
                   Some (Inr (record_where (Some (State_scope end_state))
                     (append_action (Some (State_scope end_state))
                        (cfg, Some end_state, last_node_instance, False, False, True)
                     (append_action (Some (State_scope start_state))
                        (cfg, Some start_state, first_node_instance, False, True, False)
                     (append_action (Some curscope)
                        (cfg, None, Some (AccessNode None name), True, False, False) pl))))))
            else
              Some (Inr (record_where (map_option State_scope last_state_instance)
                (append_action (map_option State_scope last_state_instance)
                   (cfg, last_state_instance, last_node_instance, False, False, True)
                (append_action (map_option State_scope first_state_instance)
                   (cfg, first_state_instance, first_node_instance, False, True, False)
                (append_action (Some curscope)
                   (cfg, first_state_instance, first_node_instance, True, False, False) pl))))))
         else
           Some (Inr (record_where (map_option State_scope first_state_instance)
             (append_action (map_option State_scope first_state_instance)
                (cfg, first_state_instance, first_node_instance, True, True, True) pl))))
      else
        Some (Inr (record_where (Some curscope)
          (append_action (Some curscope)
             (cfg, first_state_instance, first_node_instance, True, True, True) pl))))"

text \<open>
  The body of the loop over \<open>top_sdfg.arrays_recursive(include_nested_data=True)\<close> for
  one item. A dictionary read with a missing key raises \<open>KeyError\<close>; going on to the
  next item leaves the plan as it is.
\<close>

definition persistent_definition :: "externals \<Rightarrow> nat \<Rightarrow> string \<Rightarrow> data_desc \<Rightarrow> string" where
  "persistent_definition X cfg name desc = as_arg X desc (''__'' @ str_nat cfg @ ''_'' @ name) @ '';''"

definition allocate_descriptor ::
  "program \<Rightarrow> externals \<Rightarrow> nat \<times> string \<times> data_desc \<Rightarrow> planner \<Rightarrow> (error + planner) option" where
  "allocate_descriptor P X item pl =
     (case item of (cfg, name, desc) \<Rightarrow>
      let sd = sdfg_of P cfg in
      case map_of (sdfg_arrays sd) (root_data name) of
        None \<Rightarrow> Some (Inl KeyError)
      | Some top_desc \<Rightarrow>
          if \<not> transient top_desc then Some (Inr pl)
          else if name \<in> set (constants_prop sd) then Some (Inr pl)
          else if cfg \<notin> set (all_sdfgs_recursive P) then Some (Inl KeyError)
          else
            (let insts = access_instances P cfg name;
                 first = first_instance insts;
                 top_action = (Some (SDFG_scope (top_sdfg P)),
                               (cfg, fst first, snd first, True, True, True))
             in
             if lifetime top_desc = Persistent_lifetime \<or> lifetime top_desc = External_lifetime then
               (if snd first = None then Some (Inr pl)
                else Some (Inr (set_where_allocated (cfg, name) (Some (top_sdfg P))
                       ((pl\<lparr>statestruct :=
                              (if storage top_desc \<noteq> CPU_ThreadLocal
                               then statestruct pl @ [persistent_definition X cfg name desc]
                               else statestruct pl)\<rparr>)
                          \<lparr>to_allocate := to_allocate pl @ [top_action]\<rparr>))))
             else if lifetime top_desc = Global_lifetime then
               (if snd first = None then Some (Inr pl)
                else Some (Inr (set_where_allocated (cfg, name) (Some (top_sdfg P))
                       ((pl\<lparr>statestruct := statestruct pl @ [persistent_definition X cfg name desc]\<rparr>)
                          \<lparr>to_allocate := to_allocate pl @ [top_action]\<rparr>))))
             else
               (case candidate_scope P X cfg name desc (lifetime top_desc) first of
                  Inl e \<Rightarrow> Some (Inl e)
                | Inr None \<Rightarrow> Some (Inr pl)
                | Inr (Some (alloc_scope, alloc_state)) \<Rightarrow>
                    (case climb P X desc (Some cfg) alloc_state (Some alloc_scope) of
                       None \<Rightarrow> None
                     | Some (Inl e) \<Rightarrow> Some (Inl e)
                     | Some (Inr (cursdfg, curstate, curscope)) \<Rightarrow>
                         emit_actions P X cfg name desc insts cursdfg
                           (case curscope of None \<Rightarrow> SDFG_scope (top_sdfg P) | Some sc \<Rightarrow> sc)
                           pl))))"

text \<open>\<open>determine_allocation_lifetime\<close>: the loop, from the empty plan of \<open>__init__\<close>.\<close>

fun allocate_descriptors ::
  "program \<Rightarrow> externals \<Rightarrow> (nat \<times> string \<times> data_desc) list \<Rightarrow> planner \<Rightarrow> (error + planner) option" where
  "allocate_descriptors P X [] pl = Some (Inr pl)"
| "allocate_descriptors P X (item # rest) pl =
     (case allocate_descriptor P X item pl of
        None \<Rightarrow> None
      | Some (Inl e) \<Rightarrow> Some (Inl e)
      | Some (Inr pl') \<Rightarrow> allocate_descriptors P X rest pl')"

definition empty_planner :: planner where
  "empty_planner = \<lparr>statestruct = [], to_allocate = [], where_allocated = (\<lambda>k. None)\<rparr>"

definition determine_allocation_lifetime :: "program \<Rightarrow> externals \<Rightarrow> (error + planner) option" where
  "determine_allocation_lifetime P X = allocate_descriptors P X (arrays_recursive P) empty_planner"

subsection \<open>Counting the actions of a descriptor\<close>

definition n_allocate :: "(scope option \<times> action) list \<Rightarrow> nat" where
  "n_allocate acts = length (filter allocates acts)"

definition n_deallocate :: "(scope option \<times> action) list \<Rightarrow> nat" where
  "n_deallocate acts = length (filter deallocates acts)"

text \<open>
  \<open>planned\<close>: the loop body does not go on to the next item before it reaches an
  action. The top descriptor is transient, the name is no constant, and: with
  Persistent, External or Global lifetime the name has an access instance; otherwise
  the chain of cases ends with a candidate scope.
\<close>

definition top_level_lifetime :: "allocation_lifetime \<Rightarrow> bool" where
  "top_level_lifetime lt =
     (lt = Persistent_lifetime \<or> lt = External_lifetime \<or> lt = Global_lifetime)"

definition planned :: "program \<Rightarrow> externals \<Rightarrow> nat \<times> string \<times> data_desc \<Rightarrow> bool" where
  "planned P X item =
     (case item of (cfg, name, desc) \<Rightarrow>
        case map_of (sdfg_arrays (sdfg_of P cfg)) (root_data name) of
          None \<Rightarrow> False
        | Some top_desc \<Rightarrow>
            transient top_desc \<and> name \<notin> set (constants_prop (sdfg_of P cfg))
            \<and> (if top_level_lifetime (lifetime top_desc)
               then access_instances P cfg name \<noteq> []
               else (case candidate_scope P X cfg name desc (lifetime top_desc)
                            (first_instance (access_instances P cfg name)) of
                       Inr (Some c) \<Rightarrow> True
                     | _ \<Rightarrow> False)))"

text \<open>
  What holds of the actions one item adds: none when it is not planned; otherwise one
  that allocates and one that deallocates, or, for a view, the pairs of
  \<open>view_actions\<close>, one pair for each access instance.
\<close>

definition item_actions_ok ::
  "program \<Rightarrow> externals \<Rightarrow> nat \<times> string \<times> data_desc \<Rightarrow> (scope option \<times> action) list \<Rightarrow> bool" where
  "item_actions_ok P X item acts =
     (case item of (cfg, name, desc) \<Rightarrow>
        if planned P X item then
          (n_allocate acts = 1 \<and> n_deallocate acts = 1)
          \<or> (is_view desc
              \<and> fst (first_instance (access_instances P cfg name))
                  \<noteq> fst (last_instance (access_instances P cfg name))
              \<and> acts = view_actions cfg (access_instances P cfg name)
              \<and> n_allocate acts = length (access_instances P cfg name)
              \<and> n_deallocate acts = length (access_instances P cfg name))
        else acts = [])"

text \<open>The fields one item adds to the state struct.\<close>

definition item_struct_fields :: "program \<Rightarrow> externals \<Rightarrow> nat \<times> string \<times> data_desc \<Rightarrow> string list" where
  "item_struct_fields P X item =
     (case item of (cfg, name, desc) \<Rightarrow>
        case map_of (sdfg_arrays (sdfg_of P cfg)) (root_data name) of
          None \<Rightarrow> []
        | Some top_desc \<Rightarrow>
            if planned P X item \<and> top_level_lifetime (lifetime top_desc)
               \<and> \<not> (lifetime top_desc \<noteq> Global_lifetime \<and> storage top_desc = CPU_ThreadLocal)
            then [persistent_definition X cfg name desc] else [])"

text \<open>The actions of the plan, when the planner returns one.\<close>

definition planned_actions :: "program \<Rightarrow> externals \<Rightarrow> (scope option \<times> action) list option" where
  "planned_actions P X =
     (case determine_allocation_lifetime P X of
        Some (Inr pl) \<Rightarrow> Some (to_allocate pl)
      | _ \<Rightarrow> None)"

definition planned_where :: "program \<Rightarrow> externals \<Rightarrow> nat \<times> string \<Rightarrow> nat option option option" where
  "planned_where P X k =
     (case determine_allocation_lifetime P X of
        Some (Inr pl) \<Rightarrow> Some (where_allocated pl k)
      | _ \<Rightarrow> None)"

text \<open>
  An action is of the buffer \<open>name\<close> of SDFG \<open>cfg\<close> when it holds that SDFG and an
  access node of that name. \<open>action_named\<close> also admits an action without a node.
\<close>

fun action_for :: "nat \<Rightarrow> string \<Rightarrow> scope option \<times> action \<Rightarrow> bool" where
  "action_for cfg name (key, (sd, st, node, decl, alloc, dealloc)) =
     (sd = cfg \<and> (case node of None \<Rightarrow> False | Some n \<Rightarrow> data n = name))"

fun action_named :: "nat \<Rightarrow> string \<Rightarrow> scope option \<times> action \<Rightarrow> bool" where
  "action_named cfg name (key, (sd, st, node, decl, alloc, dealloc)) =
     (sd = cfg \<and> (case node of None \<Rightarrow> True | Some n \<Rightarrow> data n = name))"

definition planned_statestruct :: "program \<Rightarrow> externals \<Rightarrow> string list option" where
  "planned_statestruct P X =
     (case determine_allocation_lifetime P X of
        Some (Inr pl) \<Rightarrow> Some (statestruct pl)
      | _ \<Rightarrow> None)"

subsection \<open>An example program\<close>

text \<open>
  A top-level SDFG 0 with states 1 and 2 and, in state 1 under the map entry 30, a nested
  SDFG 5 with state 3. SDFG 0 declares \<open>A\<close> (not transient), \<open>tmp\<close> (Scope, used at the
  top level of state 1), \<open>x\<close> (Scope, used under the map in state 1 and in the condition
  of a loop region), \<open>p\<close> (Persistent, used in state 2) and \<open>c\<close> (Persistent, used in
  state 2, and a constant). SDFG 5 declares \<open>g\<close> (Global) and \<open>tl\<close> (Persistent,
  thread-local), both used in state 3, and \<open>k\<close> (thread-local, Persistent, a constant).
\<close>

definition example_desc :: "allocation_lifetime \<Rightarrow> storage_type \<Rightarrow> bool \<Rightarrow> data_desc" where
  "example_desc lt st tr =
     \<lparr>transient = tr, storage = st, lifetime = lt, is_view = False, total_size = 16,
      dtype_bytes = 8\<rparr>"

definition example_top :: sdfg where
  "example_top =
     \<lparr>sdfg_arrays = [(''A'', example_desc Scope_lifetime Default False),
                     (''tmp'', example_desc Scope_lifetime Default True),
                     (''x'', example_desc Scope_lifetime Default True),
                     (''p'', example_desc Persistent_lifetime CPU_Heap True),
                     (''c'', example_desc Persistent_lifetime CPU_Heap True)],
      constants_prop = [''c''],
      parent_nsdfg = None,
      shared_transients = [],
      symbols_and_constants = [''N'', ''c''],
      topological_states = [1, 2],
      sdfg_states = [1, 2],
      interstate_edge_symbols = [[''i'']],
      region_used_symbols = [[''N''], [''x'', ''i'']]\<rparr>"

definition example_nested :: sdfg where
  "example_nested =
     \<lparr>sdfg_arrays = [(''g'', example_desc Global_lifetime CPU_Heap True),
                     (''tl'', example_desc Persistent_lifetime CPU_ThreadLocal True),
                     (''k'', example_desc Persistent_lifetime CPU_ThreadLocal True)],
      constants_prop = [''k''],
      parent_nsdfg = Some (20, 1, 0),
      shared_transients = [],
      symbols_and_constants = [''N''],
      topological_states = [3],
      sdfg_states = [3],
      interstate_edge_symbols = [],
      region_used_symbols = [[''N'']]\<rparr>"

definition example_state :: "nat \<Rightarrow> sdfg_state" where
  "example_state s =
     (if s = 1 then
        \<lparr>state_parent = 0,
         state_nodes = [Access 9 ''A'', Access 10 ''tmp'', Entry 30, Access 12 ''x'', Other 20],
         entry_node = (\<lambda>n. if n = 12 \<or> n = 20 then Some 30 else None),
         edge_free_symbols = [''i'']\<rparr>
      else if s = 2 then
        \<lparr>state_parent = 0,
         state_nodes = [Access 11 ''p'', Access 15 ''c''],
         entry_node = (\<lambda>n. None),
         edge_free_symbols = [''i'']\<rparr>
      else
        \<lparr>state_parent = 5,
         state_nodes = [Access 13 ''g'', Access 14 ''tl'', Access 16 ''k''],
         entry_node = (\<lambda>n. None),
         edge_free_symbols = []\<rparr>)"

definition example_program :: program where
  "example_program =
     \<lparr>top_sdfg = 0,
      all_sdfgs_recursive = [0, 5],
      arrays_recursive =
        [(0, ''A'', example_desc Scope_lifetime Default False),
         (0, ''tmp'', example_desc Scope_lifetime Default True),
         (0, ''x'', example_desc Scope_lifetime Default True),
         (0, ''p'', example_desc Persistent_lifetime CPU_Heap True),
         (0, ''c'', example_desc Persistent_lifetime CPU_Heap True),
         (5, ''g'', example_desc Global_lifetime CPU_Heap True),
         (5, ''tl'', example_desc Persistent_lifetime CPU_ThreadLocal True),
         (5, ''k'', example_desc Persistent_lifetime CPU_ThreadLocal True)],
      sdfg_of = (\<lambda>i. if i = 0 then example_top else example_nested),
      state_of = example_state,
      entry_schedule = (\<lambda>e. ''Default'')\<rparr>"

text \<open>Externals under which every storage can be allocated in every schedule.\<close>

definition example_externals :: externals where
  "example_externals =
     \<lparr>can_allocate = (\<lambda>st schedule. True),
      fpga_storages = [FPGA_Local, FPGA_Registers, FPGA_ShiftRegister],
      gpu_storages = [GPU_Shared],
      is_devicelevel_fpga = (\<lambda>sd st node. False),
      is_devicelevel_gpu = (\<lambda>sd st node. False),
      common_parent_scope = (\<lambda>s a b. None),
      is_nonfree_sym_dependent = (\<lambda>node desc st fsymbols. False),
      reachability = (\<lambda>cfg s. {}),
      block_dominators = (\<lambda>cfg. example_dominators),
      as_arg = (\<lambda>desc name. ''double * __restrict__ '' @ name)\<rparr>"

text \<open>
  A program whose only array \<open>x\<close> is transient, is used by no access node and by no
  inter-state edge, and is named in the symbols of a control flow region.
\<close>

definition unused_sdfg :: "allocation_lifetime \<Rightarrow> sdfg" where
  "unused_sdfg lt =
     \<lparr>sdfg_arrays = [(''x'', example_desc lt Default True)],
      constants_prop = [],
      parent_nsdfg = None,
      shared_transients = [],
      symbols_and_constants = [],
      topological_states = [1],
      sdfg_states = [1],
      interstate_edge_symbols = [],
      region_used_symbols = [[''x'']]\<rparr>"

definition unused_program :: "allocation_lifetime \<Rightarrow> program" where
  "unused_program lt =
     \<lparr>top_sdfg = 0,
      all_sdfgs_recursive = [0],
      arrays_recursive = [(0, ''x'', example_desc lt Default True)],
      sdfg_of = (\<lambda>i. unused_sdfg lt),
      state_of = (\<lambda>s. \<lparr>state_parent = 0, state_nodes = [], entry_node = (\<lambda>n. None),
                           edge_free_symbols = []\<rparr>),
      entry_schedule = (\<lambda>e. ''Default'')\<rparr>"

section \<open>Properties of the schedule tree\<close>

lemma parent_set_parent: "parent (set_parent q n) = Some q"
  by (cases n) simp_all

lemma node_id_set_parent: "node_id (set_parent q n) = node_id n"
  by (cases n) simp_all

lemma unlinked_set_parent: "unlinked (set_parent q n) = unlinked n"
  by (cases n) simp_all

lemma set_parent_same: "parent n = Some q \<Longrightarrow> set_parent q n = n"
  by (cases n) simp_all

lemma parents_consistent_set_parent: "parents_consistent (set_parent q n) = parents_consistent n"
  by (cases n) simp_all

lemma default_transformer_relinks:
  "visit ScheduleNodeTransformer n s = (RNode (relink n), s)"
  "generic_visit ScheduleNodeTransformer n s = (relink n, s)"
  "visit_children ScheduleNodeTransformer cs acc s = (acc @ map relink cs, s)"
proof (induction ScheduleNodeTransformer n s and ScheduleNodeTransformer n s
    and ScheduleNodeTransformer cs acc s rule: visit_generic_visit_visit_children.induct)
  case (1 node s)
  then show ?case by (simp add: ScheduleNodeTransformer_def)
next
  case (2 i p k s)
  then show ?case by simp
next
  case (3 i p k cs s)
  then show ?case by simp
next
  case (4 new_values s)
  then show ?case by simp
next
  case (5 v rest new_values s)
  then show ?case by simp
qed

lemma relink_consistent: "parents_consistent n \<Longrightarrow> relink n = n"
proof (induction n)
  case (Leaf i p k)
  then show ?case by simp
next
  case (Scope i p k cs)
  have "map (\<lambda>c. set_parent i (relink c)) cs = cs"
  proof (rule map_idI)
    fix c assume c: "c \<in> set cs"
    with Scope.prems have pc: "parent c = Some i" and cc: "parents_consistent c"
      by (auto simp: list_all_iff)
    from Scope.IH[OF c cc] pc show "set_parent i (relink c) = c"
      by (simp add: set_parent_same)
  qed
  then show ?case by simp
qed

lemma unlinked_relink: "unlinked (relink n) = unlinked n"
  by (induction n) (simp_all add: unlinked_set_parent)

lemma relink_root: "node_id (relink n) = node_id n \<and> parent (relink n) = parent n"
  by (cases n) simp_all

lemma parents_consistent_relink: "parents_consistent (relink n)"
  by (induction n) (simp_all add: list_all_iff parent_set_parent parents_consistent_set_parent)

text \<open>
  Claim C7, as the code has it. The transformer that overrides nothing hands back the
  same tree when every parent link already names the containing scope; on any tree it
  hands back the same nodes with the same children in the same order and the same root
  parent, with every descendant's parent link naming its containing scope. After
  \<open>generic_visit\<close> on a scope, whatever the visit methods delete, replace or splice,
  every node of the new children list has that scope as its parent.
\<close>

theorem transformer_keeps_parent_links:
  "(parents_consistent n \<longrightarrow> visit ScheduleNodeTransformer n s = (RNode n, s))
   \<and> (\<exists>n'. visit ScheduleNodeTransformer n s = (RNode n', s) \<and> unlinked n' = unlinked n
         \<and> node_id n' = node_id n \<and> parent n' = parent n \<and> parents_consistent n')
   \<and> list_all (\<lambda>c. parent c = Some i) (children (fst (generic_visit T (Scope i p k cs) t)))"
proof (intro conjI impI)
  assume "parents_consistent n"
  then show "visit ScheduleNodeTransformer n s = (RNode n, s)"
    by (simp add: default_transformer_relinks(1) relink_consistent del: visit.simps)
next
  show "\<exists>n'. visit ScheduleNodeTransformer n s = (RNode n', s) \<and> unlinked n' = unlinked n
         \<and> node_id n' = node_id n \<and> parent n' = parent n \<and> parents_consistent n'"
    using default_transformer_relinks(1) unlinked_relink relink_root parents_consistent_relink
    by blast
next
  show "list_all (\<lambda>c. parent c = Some i) (children (fst (generic_visit T (Scope i p k cs) t)))"
    by (simp add: list_all_iff parent_set_parent split: prod.splits)
qed

text \<open>
  The theorem on a tree of four nodes, with a transformer that deletes the label and
  splices two nodes for the goto.
\<close>

theorem transformer_keeps_parent_links_witness:
  "parents_consistent example_tree
   \<and> visit ScheduleNodeTransformer example_tree () = (RNode example_tree, ())
   \<and> fst (generic_visit example_transformer example_tree ()) =
       Scope 0 None GBlock
         [Scope 2 (Some 0) (IfScope ''c'') [Leaf 3 (Some 2) BreakNode],
          Leaf 7 (Some 0) BreakNode, Leaf 4 (Some 0) (GotoNode None)]
   \<and> list_all (\<lambda>c. parent c = Some 0)
        (children (fst (generic_visit example_transformer example_tree ())))"
proof -
  have c: "parents_consistent example_tree"
    by (simp add: example_tree_def)
  have g: "fst (generic_visit example_transformer example_tree ()) =
       Scope 0 None GBlock
         [Scope 2 (Some 0) (IfScope ''c'') [Leaf 3 (Some 2) BreakNode],
          Leaf 7 (Some 0) BreakNode, Leaf 4 (Some 0) (GotoNode None)]"
    by (simp add: example_tree_def example_transformer_def)
  from transformer_keeps_parent_links
    [of example_tree "()" 0 example_transformer None GBlock "children example_tree" "()"] c g
  show ?thesis by (simp add: example_tree_def)
qed

text \<open>
  A scope built by a dataclass-generated constructor does not set its children's parent
  links. On such a tree the transformer that overrides nothing changes a parent link:
  the tree it hands back is not the tree it was given.
\<close>

theorem transformer_identity_counterexample:
  "visit ScheduleNodeTransformer (Scope 0 None GBlock [Leaf 1 None BreakNode]) ()
     = (RNode (Scope 0 None GBlock [Leaf 1 (Some 0) BreakNode]), ())
   \<and> Scope 0 None GBlock [Leaf 1 (Some 0) BreakNode] \<noteq> Scope 0 None GBlock [Leaf 1 None BreakNode]"
  by (simp add: ScheduleNodeTransformer_def)

text \<open>
  Claim C6. The text of a \<open>LoopScope\<close> follows the decision table: with an update
  statement, an init statement and a loop variable, a loop that is not inverted prints as
  \<open>for init; cond; update:\<close>, an inverted one that updates before the condition as
  \<open>do:\<close> with the update as last statement of the body, any other inverted one as
  \<open>while True:\<close> with a conditional break before the update; without them a loop prints
  as \<open>while cond:\<close>, or inverted as \<open>do: ... while cond\<close>.
\<close>

theorem loop_scope_decision_table:
  "as_string indent (Scope i p (LoopScope loop) cs) =
     (let body = ScheduleTreeScope_as_string indent (map (as_string (indent + 1)) cs);
          complete = (update_statement loop \<noteq> None \<and> init_statement loop \<noteq> None
                      \<and> loop_variable loop \<noteq> None \<and> loop_variable loop \<noteq> Some [])
      in if complete \<and> \<not> inverted loop then
           indent_str indent @ ''for '' @ the (init_statement loop) @ ''; ''
             @ loop_condition loop @ ''; '' @ the (update_statement loop) @ '':\<newline>'' @ body
         else if complete \<and> update_before_condition loop then
           indent_str indent @ the (init_statement loop) @ ''\<newline>''
             @ indent_str indent @ ''do:\<newline>'' @ body @ ''\<newline>''
             @ indent_str (indent + 1) @ the (update_statement loop) @ ''\<newline>''
             @ indent_str indent @ ''while '' @ loop_condition loop
         else if complete then
           indent_str indent @ the (init_statement loop) @ ''\<newline>''
             @ indent_str indent @ ''while True:\<newline>'' @ body @ ''\<newline>''
             @ indent_str (indent + 1) @ ''if (not '' @ loop_condition loop @ ''):\<newline>''
             @ indent_str (indent + 2) @ ''break\<newline>''
             @ indent_str (indent + 1) @ the (update_statement loop) @ ''\<newline>''
         else if \<not> inverted loop then
           indent_str indent @ ''while '' @ loop_condition loop @ '':\<newline>'' @ body
         else
           indent_str indent @ ''do:\<newline>'' @ body @ ''\<newline>''
             @ indent_str indent @ ''while '' @ loop_condition loop)"
  by (simp add: LoopScope_as_string_def check_loop_variant_def truthy_code_def truthy_str_def
      Let_def)

text \<open>
  The scenario of the claim: init \<open>i = 0\<close>, condition \<open>i < 10\<close>, update
  \<open>i = i + 1\<close>, not inverted, no children.
\<close>

theorem loop_scope_for_scenario:
  "as_string 0 (Scope 0 None
      (LoopScope \<lparr>update_statement = Some ''i = i + 1'', init_statement = Some ''i = 0'',
                  loop_variable = Some ''i'', inverted = False,
                  update_before_condition = False, loop_condition = ''i < 10''\<rparr>) [])
   = ''for i = 0; i < 10; i = i + 1:\<newline>  pass''"
  using loop_scope_decision_table [of 0 0 None
      "\<lparr>update_statement = Some ''i = i + 1'', init_statement = Some ''i = 0'',
        loop_variable = Some ''i'', inverted = False,
        update_before_condition = False, loop_condition = ''i < 10''\<rparr>" "[]"]
  by (simp add: ScheduleTreeScope_as_string_def indent_str_def INDENTATION_def)

section \<open>Properties of the file header\<close>

lemma definitions_of_append [simp]:
  "definitions_of (xs @ ys) = definitions_of xs @ definitions_of ys"
  by (induction xs rule: definitions_of.induct) simp_all

lemma emit_own_definition_inv:
  assumes "stream_ok key st" "emit_own_definition key dtype (w, st) = (w', st')"
  shows "stream_ok key st' \<and> emitted st \<subseteq> emitted st'
     \<and> emitted st' \<subseteq> emitted st \<union> custom_of {dtype}
     \<and> key ` emitted st' = key ` emitted st \<union> key ` custom_of {dtype}"
  using assms
  by (auto simp: emit_own_definition_def stream_ok_def write_chunk_def custom_of_def Let_def
      set_contains_def set_add_def split: if_splits)

lemma emit_definitions_inv:
  "stream_ok key st \<Longrightarrow> emit_definitions key dtype w st = (w', st') \<Longrightarrow>
     stream_ok key st' \<and> emitted st \<subseteq> emitted st'
     \<and> emitted st' \<subseteq> emitted st \<union> custom_of (reached dtype)
     \<and> key ` emitted st' = key ` emitted st \<union> key ` custom_of (reached dtype)"
  "stream_ok key st \<Longrightarrow> emit_field_definitions key fs w st = (w', st') \<Longrightarrow>
     stream_ok key st' \<and> emitted st \<subseteq> emitted st'
     \<and> emitted st' \<subseteq> emitted st \<union> custom_of (reached_fields fs)
     \<and> key ` emitted st' = key ` emitted st \<union> key ` custom_of (reached_fields fs)"
proof (induction key dtype w st and key fs w st arbitrary: w' st' and w' st'
    rule: emit_definitions_emit_field_definitions.induct)
  case (1 key ctype has_def wrote_something st)
  then show ?case
    using emit_own_definition_inv[of key st "Typeclass ctype has_def" wrote_something w' st']
    by (auto simp: custom_of_def)
next
  case (2 key base wrote_something st)
  obtain w1 st1 where r: "emit_definitions key base wrote_something st = (w1, st1)"
    by (cases "emit_definitions key base wrote_something st")
  from 2(1)[OF 2(2) r] have i1: "stream_ok key st1" and s1: "emitted st \<subseteq> emitted st1"
    and e1: "emitted st1 \<subseteq> emitted st \<union> custom_of (reached base)"
    and k1: "key ` emitted st1 = key ` emitted st \<union> key ` custom_of (reached base)" by auto
  from 2(3) r have "emit_own_definition key (Pointer base) (w1, st1) = (w', st')" by simp
  from emit_own_definition_inv[OF i1 this] s1 e1 k1 show ?case
    by (auto simp: custom_of_def)
next
  case (3 key name flds wrote_something st)
  obtain w1 st1 where r: "emit_field_definitions key flds wrote_something st = (w1, st1)"
    by (cases "emit_field_definitions key flds wrote_something st")
  from 3(1)[OF 3(2) r] have i1: "stream_ok key st1" and s1: "emitted st \<subseteq> emitted st1"
    and e1: "emitted st1 \<subseteq> emitted st \<union> custom_of (reached_fields flds)"
    and k1: "key ` emitted st1 = key ` emitted st \<union> key ` custom_of (reached_fields flds)" by auto
  from 3(3) r have o: "emit_own_definition key (Struct name flds) (w1, st1) = (w', st')" by simp
  from emit_own_definition_inv[OF i1 o] have i2: "stream_ok key st'" and s2: "emitted st1 \<subseteq> emitted st'"
    and e2: "emitted st' \<subseteq> emitted st1 \<union> custom_of {Struct name flds}"
    and k2: "key ` emitted st' = key ` emitted st1 \<union> key ` custom_of {Struct name flds}" by auto
  have c: "custom_of (reached (Struct name flds)) = custom_of {Struct name flds} \<union> custom_of (reached_fields flds)"
    by (auto simp: custom_of_def)
  show ?case using i2 s1 s2 e1 e2 k1 k2 unfolding c by (auto simp: image_Un)
next
  case (4 key wrote_something st)
  then show ?case by (simp add: custom_of_def)
next
  case (5 key fname field rest wrote_something st)
  obtain w1 st1 where r: "emit_definitions key field wrote_something st = (w1, st1)"
    by (cases "emit_definitions key field wrote_something st")
  from 5(1)[OF 5(3) r] have i1: "stream_ok key st1" and s1: "emitted st \<subseteq> emitted st1"
    and e1: "emitted st1 \<subseteq> emitted st \<union> custom_of (reached field)"
    and k1: "key ` emitted st1 = key ` emitted st \<union> key ` custom_of (reached field)" by auto
  from 5(4) r have "emit_field_definitions key rest w1 st1 = (w', st')" by simp
  from 5(2)[OF r[symmetric] i1 this] have i2: "stream_ok key st'" and s2: "emitted st1 \<subseteq> emitted st'"
    and e2: "emitted st' \<subseteq> emitted st1 \<union> custom_of (reached_fields rest)"
    and k2: "key ` emitted st' = key ` emitted st1 \<union> key ` custom_of (reached_fields rest)" by auto
  have c: "custom_of (reached_fields ((fname, field) # rest)) = custom_of (reached field) \<union> custom_of (reached_fields rest)"
    by (auto simp: custom_of_def)
  show ?case using i2 s1 s2 e1 e2 k1 k2 unfolding c by (auto simp: image_Un)
qed


lemma emit_unique_definitions_inv:
  "stream_ok key st \<Longrightarrow> emit_unique_definitions key ds w st = (w', st') \<Longrightarrow>
     stream_ok key st' \<and> emitted st \<subseteq> emitted st'
     \<and> emitted st' \<subseteq> emitted st \<union> custom_of (\<Union>(reached ` set ds))
     \<and> key ` emitted st' = key ` emitted st \<union> key ` custom_of (\<Union>(reached ` set ds))"
proof (induction ds arbitrary: w st)
  case Nil
  then show ?case by (simp add: custom_of_def)
next
  case (Cons dt rest)
  obtain w1 st1 where r: "emit_definitions key dt w st = (w1, st1)"
    by (cases "emit_definitions key dt w st")
  from emit_definitions_inv(1)[OF Cons.prems(1) r] have i1: "stream_ok key st1"
    and s1: "emitted st \<subseteq> emitted st1"
    and e1: "emitted st1 \<subseteq> emitted st \<union> custom_of (reached dt)"
    and k1: "key ` emitted st1 = key ` emitted st \<union> key ` custom_of (reached dt)" by auto
  from Cons.prems(2) r have "emit_unique_definitions key rest w1 st1 = (w', st')" by simp
  from Cons.IH[OF i1 this] have i2: "stream_ok key st'" and s2: "emitted st1 \<subseteq> emitted st'"
    and e2: "emitted st' \<subseteq> emitted st1 \<union> custom_of (\<Union>(reached ` set rest))"
    and k2: "key ` emitted st' = key ` emitted st1 \<union> key ` custom_of (\<Union>(reached ` set rest))"
    by auto
  have c: "custom_of (\<Union>(reached ` set (dt # rest)))
           = custom_of (reached dt) \<union> custom_of (\<Union>(reached ` set rest))"
    by (auto simp: custom_of_def)
  show ?case using i2 s1 s2 e1 e2 k1 k2 unfolding c by (auto simp: image_Un)
qed

lemma custom_types_definitions:
  "\<exists>st. stream_ok key st
        \<and> definitions_of (custom_types key ds) = definitions_of (global_stream st)
        \<and> emitted st \<subseteq> custom_of (\<Union>(reached ` set ds))
        \<and> key ` emitted st = key ` custom_of (\<Union>(reached ` set ds))"
proof -
  let ?st0 = "\<lparr>emitted = {}, global_stream = []\<rparr>"
  obtain w st where r: "emit_unique_definitions key ds False ?st0 = (w, st)"
    by (cases "emit_unique_definitions key ds False ?st0")
  have "stream_ok key ?st0" by (simp add: stream_ok_def)
  from emit_unique_definitions_inv[OF this r]
  have "stream_ok key st" "emitted st \<subseteq> custom_of (\<Union>(reached ` set ds))"
    "key ` emitted st = key ` custom_of (\<Union>(reached ` set ds))" by auto
  moreover have "definitions_of (custom_types key ds) = definitions_of (global_stream st)"
    by (simp add: custom_types_def r write_chunk_def)
  ultimately show ?thesis by blast
qed

lemma filter_key_distinct:
  "distinct (map f xs) \<Longrightarrow>
     length (filter (\<lambda>t. f t = k) xs) = (if k \<in> f ` set xs then 1 else 0)"
  by (induction xs) auto

lemma count_list_definitions:
  "count_list stream (Definition t) = count_list (definitions_of stream) t"
  by (induction stream rule: definitions_of.induct) simp_all

lemma count_list_distinct:
  "distinct xs \<Longrightarrow> count_list xs x = (if x \<in> set xs then 1 else 0)"
  by (induction xs) auto

lemma array_datatypes_acc:
  "D \<subseteq> array_datatypes key arrays D
   \<and> array_datatypes key arrays D \<subseteq> D \<union> array_dtypes arrays
   \<and> key ` array_datatypes key arrays D = key ` D \<union> key ` array_dtypes arrays"
proof (induction key arrays D rule: array_datatypes.induct)
  case (1 key dts)
  then show ?case by (simp add: array_dtypes_def List.map_filter_simps)
next
  case (2 key sd arrname rest dts)
  then show ?case by (simp add: array_dtypes_def List.map_filter_simps)
next
  case (3 key sd arrname dtype rest dts)
  have a: "array_dtypes ((sd, arrname, Some dtype) # rest) = insert dtype (array_dtypes rest)"
    by (simp add: array_dtypes_def List.map_filter_simps)
  from 3 show ?case unfolding a
    by (auto simp: set_add_def set_contains_def split: if_splits)
qed

lemma array_datatypes_inj:
  assumes "inj_on key (array_dtypes arrays)"
  shows "array_datatypes key arrays {} = array_dtypes arrays"
proof -
  from array_datatypes_acc[of "{}" key arrays]
  have s: "array_datatypes key arrays {} \<subseteq> array_dtypes arrays"
    and k: "key ` array_datatypes key arrays {} = key ` array_dtypes arrays" by auto
  show ?thesis
  proof
    show "array_datatypes key arrays {} \<subseteq> array_dtypes arrays" by (rule s)
    show "array_dtypes arrays \<subseteq> array_datatypes key arrays {}"
    proof
      fix t assume t: "t \<in> array_dtypes arrays"
      then have "key t \<in> key ` array_datatypes key arrays {}" using k by blast
      then obtain u where u: "u \<in> array_datatypes key arrays {}" "key u = key t" by auto
      with s have "u \<in> array_dtypes arrays" by blast
      with assms t u(2) have "u = t" by (auto dest: inj_onD)
      with u(1) show "t \<in> array_datatypes key arrays {}" by simp
    qed
  qed
qed

lemma reached_self: "t \<in> reached t"
  by (cases t) simp_all

text \<open>
  Claim C9, as amended. The section holds exactly one definition for each class of
  Python-equal types (types with the same key) among the custom types reached, through
  pointers and struct fields, from the set of array types, whatever the order in which that
  set is iterated; every definition written is of such a type; and where equal types are
  the same type, the definition of a type is written exactly once when it is a custom type
  reached from some array's type and never otherwise.
\<close>

theorem custom_type_emitted_once:
  assumes "set datatypes = array_datatypes key arrays {}"
  shows "length (filter (\<lambda>t. key t = k) (definitions_of (custom_types key datatypes)))
           = (if k \<in> key ` custom_of (\<Union>(reached ` array_datatypes key arrays {})) then 1 else 0)
       \<and> set (definitions_of (custom_types key datatypes))
           \<subseteq> custom_of (\<Union>(reached ` array_datatypes key arrays {}))
       \<and> (inj_on key (\<Union>(reached ` array_dtypes arrays)) \<longrightarrow>
            count_list (custom_types key datatypes) (Definition t)
              = (if t \<in> custom_of (\<Union>(reached ` array_dtypes arrays)) then 1 else 0))"
proof -
  let ?R = "\<Union>(reached ` array_datatypes key arrays {})"
  let ?defs = "definitions_of (custom_types key datatypes)"
  obtain st where ok: "stream_ok key st"
    and d: "?defs = definitions_of (global_stream st)"
    and sub: "emitted st \<subseteq> custom_of ?R"
    and keys: "key ` emitted st = key ` custom_of ?R"
    using custom_types_definitions[of key "datatypes"] unfolding assms by blast
  from ok d have dist: "distinct (map key ?defs)" and mem: "set ?defs = emitted st"
    by (simp_all add: stream_ok_def)
  have one: "length (filter (\<lambda>t. key t = k) ?defs) = (if k \<in> key ` custom_of ?R then 1 else 0)"
    using filter_key_distinct[OF dist, of k] mem keys by simp
  have two: "set ?defs \<subseteq> custom_of ?R" using mem sub by simp
  have three: "count_list (custom_types key datatypes) (Definition t)
              = (if t \<in> custom_of (\<Union>(reached ` array_dtypes arrays)) then 1 else 0)"
    if inj: "inj_on key (\<Union>(reached ` array_dtypes arrays))"
  proof -
    have "array_dtypes arrays \<subseteq> \<Union>(reached ` array_dtypes arrays)"
      using reached_self by blast
    then have "inj_on key (array_dtypes arrays)" using inj by (rule inj_on_subset[rotated])
    then have eq: "array_datatypes key arrays {} = array_dtypes arrays"
      by (rule array_datatypes_inj)
    have cs: "custom_of ?R \<subseteq> ?R" by (auto simp: custom_of_def)
    have "emitted st = custom_of ?R"
    proof
      show "emitted st \<subseteq> custom_of ?R" by (rule sub)
      show "custom_of ?R \<subseteq> emitted st"
      proof
        fix u assume u: "u \<in> custom_of ?R"
        then have "key u \<in> key ` emitted st" using keys by blast
        then obtain v where v: "v \<in> emitted st" "key v = key u" by auto
        from v(1) sub cs have "v \<in> ?R" by blast
        moreover from u cs have "u \<in> ?R" by blast
        ultimately have "v = u" using inj v(2) unfolding eq by (auto dest: inj_onD)
        with v(1) show "u \<in> emitted st" by simp
      qed
    qed
    moreover have "distinct ?defs" using dist by (rule distinct_map[THEN iffD1, THEN conjunct1])
    ultimately show ?thesis
      using mem count_list_distinct[of ?defs t] unfolding count_list_definitions eq by simp
  qed
  from one two three show ?thesis by blast
qed


lemma example_same_name_datatypes:
  "array_datatypes ctype_of example_arrays_same_name {} = {vec3}"
  by (simp add: example_arrays_same_name_def set_add_def set_contains_def vec3_def vec3_padded_def)

lemma example_datatypes:
  "array_datatypes ctype_of example_arrays {}
     = {Pointer particle, vec3, Typeclass ''int'' False, particle}"
  by (auto simp: example_arrays_def set_add_def set_contains_def vec3_def particle_def)

lemma example_reached:
  "\<Union>(reached ` array_dtypes example_arrays)
     = {Pointer particle, particle, vec3, Pointer vec3, Typeclass ''double'' False,
        Typeclass ''int'' False}"
  by (auto simp: example_arrays_def array_dtypes_def List.map_filter_simps vec3_def particle_def)

lemma example_inj: "inj_on ctype_of (\<Union>(reached ` array_dtypes example_arrays))"
  unfolding example_reached by (simp add: vec3_def particle_def)

text \<open>
  With the C type name as key: two arrays of one struct and a third of another struct
  with the same name give one definition for the name; and for two structs, one nested in
  the other and behind a pointer, used by five arrays of two SDFGs, each definition is
  written once and the pointer has none.
\<close>

theorem custom_type_emitted_once_witness:
  "set [vec3] = array_datatypes ctype_of example_arrays_same_name {}
   \<and> length (filter (\<lambda>t. ctype_of t = ''vec3'') (definitions_of (custom_types ctype_of [vec3]))) = 1
   \<and> set [particle, Pointer particle, vec3, Typeclass ''int'' False]
        = array_datatypes ctype_of example_arrays {}
   \<and> inj_on ctype_of (\<Union>(reached ` array_dtypes example_arrays))
   \<and> count_list (custom_types ctype_of [particle, Pointer particle, vec3, Typeclass ''int'' False])
        (Definition vec3) = 1
   \<and> count_list (custom_types ctype_of [particle, Pointer particle, vec3, Typeclass ''int'' False])
        (Definition (Pointer vec3)) = 0"
proof -
  have a: "set [vec3] = array_datatypes ctype_of example_arrays_same_name {}"
    by (simp add: example_same_name_datatypes)
  have b: "set [particle, Pointer particle, vec3, Typeclass ''int'' False]
        = array_datatypes ctype_of example_arrays {}"
    unfolding example_datatypes by auto
  have m1: "''vec3'' \<in> ctype_of ` custom_of (\<Union>(reached ` array_datatypes ctype_of example_arrays_same_name {}))"
    unfolding example_same_name_datatypes
    by (rule image_eqI[of _ _ vec3]) (simp_all add: custom_of_def vec3_def)
  have m2: "vec3 \<in> custom_of (\<Union>(reached ` array_dtypes example_arrays))"
    unfolding example_reached by (simp add: custom_of_def vec3_def)
  have m3: "Pointer vec3 \<notin> custom_of (\<Union>(reached ` array_dtypes example_arrays))"
    by (simp add: custom_of_def)
  from custom_type_emitted_once[OF a, of "''vec3''"] m1
  have c1: "length (filter (\<lambda>t. ctype_of t = ''vec3'') (definitions_of (custom_types ctype_of [vec3]))) = 1"
    by simp
  from custom_type_emitted_once[OF b, of _ vec3] m2 example_inj
  have c2: "count_list (custom_types ctype_of [particle, Pointer particle, vec3, Typeclass ''int'' False])
        (Definition vec3) = 1" by simp
  from custom_type_emitted_once[OF b, of _ "Pointer vec3"] m3 example_inj
  have c3: "count_list (custom_types ctype_of [particle, Pointer particle, vec3, Typeclass ''int'' False])
        (Definition (Pointer vec3)) = 0" by simp
  from a b c1 c2 c3 example_inj show ?thesis by blast
qed

text \<open>
  Claim C9 as stated fails where two different custom types are equal for Python: with
  the C type name as key, array \<open>F\<close> has a struct of its own, different from the struct of
  \<open>B\<close> and \<open>E\<close> but with the same name; the set of types keeps one of the two, one
  definition is written, and the struct of \<open>F\<close> has none.
\<close>

theorem custom_type_identity_counterexample:
  "example_arrays_same_name ! 2 = (1, ''F'', Some vec3_padded)
   \<and> has_emit_definition vec3_padded
   \<and> vec3_padded \<noteq> vec3
   \<and> array_datatypes ctype_of example_arrays_same_name {} = {vec3}
   \<and> custom_types ctype_of [vec3] = [Text [], Definition vec3, Text []]
   \<and> count_list (custom_types ctype_of [vec3]) (Definition vec3_padded) = 0"
  by (simp add: example_arrays_same_name_def set_add_def set_contains_def vec3_def vec3_padded_def
      custom_types_def emit_own_definition_def write_chunk_def)

section \<open>Properties of external memory management\<close>

lemma total_bytes_sum: "total_bytes arrays sz = sz + sum_list (map byte_size arrays)"
  by (induction arrays sz rule: total_bytes.induct) (simp_all add: byte_size_def)

lemma bind_lines_prefix_sums:
  "bind_lines env arrays offset =
     map (\<lambda>i. spec_bind env (arrays ! i) (offset + sum_list (map byte_size (take i arrays))))
       [0..<length arrays]"
proof (induction env arrays offset rule: bind_lines.induct)
  case (1 env offset)
  then show ?case by simp
next
  case (2 env subsdfg aname arr rest offset)
  have "[0..<length ((subsdfg, aname, arr) # rest)] = 0 # map Suc [0..<length rest]"
    by (simp add: upt_conv_Cons map_Suc_upt del: upt_Suc)
  then show ?case using 2
    by (simp add: byte_size_def o_def add.assoc spec_bind_def bind_line_def allocname_of_def
        del: upt_Suc)
qed

lemma first_occurrences_snoc:
  "first_occurrences (xs @ [k]) = (if k \<in> set xs then first_occurrences xs else first_occurrences xs @ [k])"
  by (simp add: first_occurrences_def)

lemma set_first_occurrences [simp]: "set (first_occurrences xs) = set xs"
  by (simp add: first_occurrences_def)

lemma distinct_first_occurrences [simp]: "distinct (first_occurrences xs)"
  by (simp add: first_occurrences_def)

lemma ext_arrays_append_existing:
  "distinct ks \<Longrightarrow> k \<in> set ks \<Longrightarrow>
   ext_arrays_append k x (map (\<lambda>st. (st, f st)) ks) = map (\<lambda>st. (st, if st = k then f st @ [x] else f st)) ks"
  by (induction ks) auto

lemma ext_arrays_append_new:
  "k \<notin> set ks \<Longrightarrow>
   ext_arrays_append k x (map (\<lambda>st. (st, f st)) ks) = map (\<lambda>st. (st, f st)) ks @ [(k, [x])]"
  by (induction ks) auto

lemma collect_external_arrays_groups:
  "collect_external_arrays arrays =
     map (\<lambda>st. (st, external_of_class st arrays)) (external_classes arrays)"
proof (induction arrays rule: rev_induct)
  case Nil
  then show ?case
    by (simp add: collect_external_arrays_def external_classes_def first_occurrences_def)
next
  case (snoc e arrays)
  obtain subsdfg aname arr where e: "e = (subsdfg, aname, arr)" by (cases e) auto
  let ?ks = "external_classes arrays"
  have step: "collect_external_arrays (arrays @ [e]) = collect_step (collect_external_arrays arrays) e"
    by (simp add: collect_external_arrays_def)
  show ?case
  proof (cases "lifetime arr = External_lifetime")
    case False
    then show ?thesis using snoc e step
      by (simp add: collect_step_def external_classes_def external_of_class_def)
  next
    case True
    have keys: "set ?ks = {st. \<exists>s a d. (s, a, d) \<in> set arrays \<and> lifetime d = External_lifetime \<and> storage d = st}"
      by (force simp: external_classes_def image_iff)
    show ?thesis
    proof (cases "storage arr \<in> set ?ks")
      case in_ks: True
      have ks': "external_classes (arrays @ [e]) = ?ks"
        using True in_ks e by (simp add: external_classes_def first_occurrences_snoc)
      have "collect_external_arrays (arrays @ [e]) =
          map (\<lambda>st. (st, if st = storage arr then external_of_class st arrays @ [e] else external_of_class st arrays)) ?ks"
        using step snoc True e in_ks
          ext_arrays_append_existing[of ?ks "storage arr" e "\<lambda>st. external_of_class st arrays"]
        by (simp add: collect_step_def external_classes_def)
      also have "\<dots> = map (\<lambda>st. (st, external_of_class st (arrays @ [e]))) ?ks"
        using True e by (auto simp: external_of_class_def)
      finally show ?thesis using ks' by simp
    next
      case notin: False
      have ks': "external_classes (arrays @ [e]) = ?ks @ [storage arr]"
        using True notin e by (simp add: external_classes_def first_occurrences_snoc)
      have none: "external_of_class (storage arr) arrays = []"
        using notin keys by (auto simp: external_of_class_def filter_empty_conv)
      have "collect_external_arrays (arrays @ [e]) =
          map (\<lambda>st. (st, external_of_class st arrays)) ?ks @ [(storage arr, [e])]"
        using step snoc True e notin
          ext_arrays_append_new[of "storage arr" ?ks e "\<lambda>st. external_of_class st arrays"]
        by (simp add: collect_step_def)
      also have "map (\<lambda>st. (st, external_of_class st arrays)) ?ks
          = map (\<lambda>st. (st, external_of_class st (arrays @ [e]))) ?ks"
        using notin e by (auto simp: external_of_class_def)
      finally show ?thesis using ks' none True e
        by (simp add: external_of_class_def)
    qed
  qed
qed

lemma size_query_function_text: "size_query_function env st n = spec_size_query env st n"
  by (simp add: size_query_function_def spec_size_query_def initparams_comma_def)

lemma pointer_set_header_text: "pointer_set_header env st = spec_pointer_bind_open env st"
  by (simp add: pointer_set_header_def spec_pointer_bind_open_def initparams_comma_def)

lemma external_memory_refines:
  "generate_external_memory_management env arrays =
     concat (map (spec_functions_for_class env arrays) (external_classes arrays))"
  by (simp add: generate_external_memory_management_def collect_external_arrays_groups
      functions_for_storage_def spec_functions_for_class_def[abs_def] total_bytes_sum
      bind_lines_prefix_sums size_query_function_text pointer_set_header_text o_def Let_def)

text \<open>
  Claim C5. The texts written are, for each storage class with an External buffer (in
  the order of first use), the size query returning the sum of the byte sizes of the
  External buffers of the class, and the pointer-bind function binding the \<open>i\<close>-th of
  them, in declaration order, to \<open>ptr\<close> plus the byte sizes of those before it. When one
  buffer is the only External buffer of its class, the size query returns its byte size
  and its pointer is \<open>ptr\<close> plus 0.
\<close>

theorem external_memory_functions:
  "generate_external_memory_management env arrays =
     concat (map (spec_functions_for_class env arrays) (external_classes arrays))
   \<and> (external_of_class st arrays = [(subsdfg, aname, arr)] \<longrightarrow>
        spec_functions_for_class env arrays st =
          [spec_size_query env st (total_size arr * dtype_bytes arr),
           spec_pointer_bind_open env st, spec_bind env (subsdfg, aname, arr) 0, ''}''])"
  by (simp add: external_memory_refines spec_functions_for_class_def byte_size_def)

lemma str_nat_examples:
  "str_nat 0 = ''0''" "str_nat 1 = ''1''" "str_nat (Suc 0) = ''1''" "str_nat 2 = ''2''"
  "str_nat 128 = ''128''" "str_nat 4096 = ''4096''" "str_nat 4176 = ''4176''"
  "str_nat 4182 = ''4182''"
  by (simp_all add: str_nat.simps digit_char_def)

text \<open>
  The scenario of the claim: a buffer of 1024 elements of 4 bytes is the only External
  buffer; the size query returns 4096 and the buffer is bound at offset 0. And three
  External buffers of 4096, 80 and 6 bytes in one class, with a buffer of another class
  declared between them: the size query returns 4182 and the buffers are bound at offsets
  0, 4096 and 4176.
\<close>

theorem external_memory_functions_witness:
  "external_of_class CPU_Heap example_ext_arrays =
     [(1, ''ext'', \<lparr>transient = True, storage = CPU_Heap, lifetime = External_lifetime,
                     is_view = False, total_size = 1024, dtype_bytes = 4\<rparr>)]
   \<and> generate_external_memory_management example_env example_ext_arrays =
     [''\<newline>DACE_EXPORTED size_t __dace_get_external_memory_size_CPU_Heap(prog_state_t *__state)\<newline>{\<newline>    return 4096;\<newline>}\<newline>'',
      ''\<newline>DACE_EXPORTED void __dace_set_external_memory_CPU_Heap(prog_state_t *__state, char *ptr)\<newline>{'',
      ''__state->__1_ext = decltype(__state->__1_ext)(ptr + 0);'', ''}'']
   \<and> generate_external_memory_management example_env example_ext_arrays_shared =
     [''\<newline>DACE_EXPORTED size_t __dace_get_external_memory_size_CPU_Heap(prog_state_t *__state)\<newline>{\<newline>    return 4182;\<newline>}\<newline>'',
      ''\<newline>DACE_EXPORTED void __dace_set_external_memory_CPU_Heap(prog_state_t *__state, char *ptr)\<newline>{'',
      ''__state->__1_ext = decltype(__state->__1_ext)(ptr + 0);'',
      ''__state->__2_buf = decltype(__state->__2_buf)(ptr + 4096);'',
      ''__state->__2_idx = decltype(__state->__2_idx)(ptr + 4176);'', ''}'',
      ''\<newline>DACE_EXPORTED size_t __dace_get_external_memory_size_GPU_Global(prog_state_t *__state)\<newline>{\<newline>    return 128;\<newline>}\<newline>'',
      ''\<newline>DACE_EXPORTED void __dace_set_external_memory_GPU_Global(prog_state_t *__state, char *ptr)\<newline>{'',
      ''__state->__0_dev = decltype(__state->__0_dev)(ptr + 0);'', ''}'']"
proof -
  let ?arr = "\<lparr>transient = True, storage = CPU_Heap, lifetime = External_lifetime,
               is_view = False, total_size = 1024, dtype_bytes = 4\<rparr>"
  have h: "external_of_class CPU_Heap example_ext_arrays = [(1, ''ext'', ?arr)]"
    by (simp add: external_of_class_def example_ext_arrays_def)
  have c: "external_classes example_ext_arrays = [CPU_Heap]"
    by (simp add: external_classes_def example_ext_arrays_def first_occurrences_def)
  from external_memory_functions[of example_env example_ext_arrays CPU_Heap 1 "''ext''" ?arr] h c
  have one: "generate_external_memory_management example_env example_ext_arrays =
     [''\<newline>DACE_EXPORTED size_t __dace_get_external_memory_size_CPU_Heap(prog_state_t *__state)\<newline>{\<newline>    return 4096;\<newline>}\<newline>'',
      ''\<newline>DACE_EXPORTED void __dace_set_external_memory_CPU_Heap(prog_state_t *__state, char *ptr)\<newline>{'',
      ''__state->__1_ext = decltype(__state->__1_ext)(ptr + 0);'', ''}'']"
    by (simp add: spec_size_query_def spec_pointer_bind_open_def spec_bind_def
        example_env_def str_int_def str_nat_examples)
  have c2: "external_classes example_ext_arrays_shared = [CPU_Heap, GPU_Global]"
    by (simp add: external_classes_def example_ext_arrays_shared_def first_occurrences_def)
  have upt3: "[0..<3] = [0, 1, 2]" by (simp add: upt_conv_Cons)
  from external_memory_functions[of example_env example_ext_arrays_shared] c2
  have two: "generate_external_memory_management example_env example_ext_arrays_shared =
     [''\<newline>DACE_EXPORTED size_t __dace_get_external_memory_size_CPU_Heap(prog_state_t *__state)\<newline>{\<newline>    return 4182;\<newline>}\<newline>'',
      ''\<newline>DACE_EXPORTED void __dace_set_external_memory_CPU_Heap(prog_state_t *__state, char *ptr)\<newline>{'',
      ''__state->__1_ext = decltype(__state->__1_ext)(ptr + 0);'',
      ''__state->__2_buf = decltype(__state->__2_buf)(ptr + 4096);'',
      ''__state->__2_idx = decltype(__state->__2_idx)(ptr + 4176);'', ''}'',
      ''\<newline>DACE_EXPORTED size_t __dace_get_external_memory_size_GPU_Global(prog_state_t *__state)\<newline>{\<newline>    return 128;\<newline>}\<newline>'',
      ''\<newline>DACE_EXPORTED void __dace_set_external_memory_GPU_Global(prog_state_t *__state, char *ptr)\<newline>{'',
      ''__state->__0_dev = decltype(__state->__0_dev)(ptr + 0);'', ''}'']"
    by (simp add: spec_functions_for_class_def external_of_class_def example_ext_arrays_shared_def
        byte_size_def upt3 spec_size_query_def spec_pointer_bind_open_def spec_bind_def
        example_env_def str_int_def str_nat_examples)
  from h one two show ?thesis by blast
qed

section \<open>Properties of the dominator search\<close>





section \<open>Properties of the text cleanup\<close>

text \<open>
  Claim C8 at a failing input. The second line of the text starts with a semicolon and
  goes on with a statement: it is not blank, it is not a lone semicolon, it is no label
  and the text has no goto. The cleanup drops the whole line, statement included.
\<close>

theorem cleanup_drops_statement_after_semicolon:
  "clean_up_generated_code ''a = 0;\<newline>; b = 1;\<newline>c = 2;'' = ''a = 0;\<newline>c = 2;\<newline>''
   \<and> split_lines ''a = 0;\<newline>; b = 1;\<newline>c = 2;'' = [''a = 0;'', ''; b = 1;'', ''c = 2;'']
   \<and> strip ''; b = 1;'' = ''; b = 1;''
   \<and> findall_label ''; b = 1;'' = []
   \<and> findall_goto ''a = 0;\<newline>; b = 1;\<newline>c = 2;'' = []"
  by code_simp

section \<open>Properties of the allocation planner\<close>

lemma view_actions_counts:
  "n_allocate (view_actions cfg insts) = length insts"
  "n_deallocate (view_actions cfg insts) = length insts"
  by (induction cfg insts rule: view_actions.induct) (simp_all add: n_allocate_def n_deallocate_def)

lemma emit_actions_effect:
  assumes "emit_actions P X cfg name desc insts cursdfg curscope pl = Some (Inr pl')"
  shows "statestruct pl' = statestruct pl
     \<and> (\<exists>acts. to_allocate pl' = to_allocate pl @ acts
          \<and> ((n_allocate acts = 1 \<and> n_deallocate acts = 1)
             \<or> (is_view desc \<and> fst (first_instance insts) \<noteq> fst (last_instance insts)
                 \<and> acts = view_actions cfg insts)))
     \<and> (\<forall>k. k \<noteq> (cfg, name) \<longrightarrow> where_allocated pl' k = where_allocated pl k)"
  using assms
  unfolding emit_actions_def Let_def
  by (auto simp: append_action_def set_where_allocated_def n_allocate_def n_deallocate_def
      split: prod.splits if_splits option.splits sum.splits)

lemma first_instance_None: "snd (first_instance insts) = None \<longleftrightarrow> insts = []"
  by (cases insts) (auto simp: first_instance_def)

lemma allocate_descriptor_effect:
  assumes "allocate_descriptor P X (cfg, name, desc) pl = Some (Inr pl')"
  shows "(\<exists>acts. to_allocate pl' = to_allocate pl @ acts \<and> item_actions_ok P X (cfg, name, desc) acts)
     \<and> statestruct pl' = statestruct pl @ item_struct_fields P X (cfg, name, desc)
     \<and> (\<forall>k. k \<noteq> (cfg, name) \<longrightarrow> where_allocated pl' k = where_allocated pl k)"
proof (cases "map_of (sdfg_arrays (sdfg_of P cfg)) (root_data name)")
  case None
  with assms show ?thesis by (simp add: allocate_descriptor_def)
next
  case (Some top_desc)
  note top = Some
  show ?thesis
  proof (cases "transient top_desc \<and> name \<notin> set (constants_prop (sdfg_of P cfg))")
    case False
    with assms top show ?thesis
      by (auto simp: allocate_descriptor_def item_actions_ok_def planned_def
          item_struct_fields_def split: if_splits)
  next
    case True
    with assms top have cfg_in: "cfg \<in> set (all_sdfgs_recursive P)"
      by (auto simp: allocate_descriptor_def split: if_splits)
    let ?insts = "access_instances P cfg name"
    show ?thesis
    proof (cases "top_level_lifetime (lifetime top_desc)")
      case tl: True
      show ?thesis
      proof (cases "?insts = []")
        case True
        with assms top \<open>transient top_desc \<and> _\<close> cfg_in tl show ?thesis
          by (auto simp: allocate_descriptor_def item_actions_ok_def planned_def Let_def
              item_struct_fields_def top_level_lifetime_def first_instance_None
              split: if_splits)
      next
        case False
        with assms top \<open>transient top_desc \<and> _\<close> cfg_in tl show ?thesis
          by (auto simp: allocate_descriptor_def item_actions_ok_def planned_def Let_def
              item_struct_fields_def top_level_lifetime_def first_instance_None
              set_where_allocated_def n_allocate_def n_deallocate_def
              split: if_splits)
      qed
    next
      case ntl: False
      let ?cand = "candidate_scope P X cfg name desc (lifetime top_desc) (first_instance ?insts)"
      from assms top True cfg_in ntl have step:
        "(case ?cand of
            Inl e \<Rightarrow> Some (Inl e)
          | Inr None \<Rightarrow> Some (Inr pl)
          | Inr (Some (alloc_scope, alloc_state)) \<Rightarrow>
              (case climb P X desc (Some cfg) alloc_state (Some alloc_scope) of
                 None \<Rightarrow> None
               | Some (Inl e) \<Rightarrow> Some (Inl e)
               | Some (Inr (cursdfg, curstate, curscope)) \<Rightarrow>
                   emit_actions P X cfg name desc ?insts cursdfg
                     (case curscope of None \<Rightarrow> SDFG_scope (top_sdfg P) | Some sc \<Rightarrow> sc)
                     pl)) = Some (Inr pl')"
        by (simp add: allocate_descriptor_def Let_def top_level_lifetime_def)
      show ?thesis
      proof (cases ?cand)
        case (Inl e)
        with step show ?thesis by simp
      next
        case (Inr c)
        show ?thesis
        proof (cases c)
          case None
          with step Inr top True ntl show ?thesis
            by (simp add: item_actions_ok_def planned_def item_struct_fields_def)
        next
          case (Some pair)
          obtain alloc_scope alloc_state where pair: "pair = (alloc_scope, alloc_state)"
            by (cases pair)
          from step Inr Some pair obtain cursdfg curstate curscope where
            em: "emit_actions P X cfg name desc ?insts cursdfg
                     (case curscope of None \<Rightarrow> SDFG_scope (top_sdfg P) | Some sc \<Rightarrow> sc) pl
                  = Some (Inr pl')"
            by (auto split: option.splits sum.splits)
          have pl: "planned P X (cfg, name, desc)"
            using Inr Some top True ntl by (simp add: planned_def)
          from emit_actions_effect[OF em] pl top ntl show ?thesis
            by (auto simp: item_actions_ok_def item_struct_fields_def view_actions_counts)
        qed
      qed
    qed
  qed
qed

lemma allocate_descriptors_statestruct:
  "allocate_descriptors P X items pl = Some (Inr plan) \<Longrightarrow>
     statestruct plan = statestruct pl @ concat (map (item_struct_fields P X) items)"
proof (induction items arbitrary: pl)
  case Nil
  then show ?case by simp
next
  case (Cons item rest)
  obtain cfg name desc where item: "item = (cfg, name, desc)" by (cases item) auto
  from Cons.prems obtain pl1 where
    s1: "allocate_descriptor P X item pl = Some (Inr pl1)"
    and r1: "allocate_descriptors P X rest pl1 = Some (Inr plan)"
    by (auto split: option.splits sum.splits)
  from allocate_descriptor_effect[OF s1[unfolded item]] item
  have "statestruct pl1 = statestruct pl @ item_struct_fields P X item" by auto
  with Cons.IH[OF r1] show ?case by simp
qed

lemma scope_lifetime_states_multistate:
  "scope_lifetime_states P X name sts (cs, st, True) = (cs, st, True)"
  by (cases sts) simp_all

lemma instances_in_states_data:
  "(s, n) \<in> set (instances_in_states P names name sts) \<Longrightarrow> data n = name"
  by (induction P names name sts rule: instances_in_states.induct) (auto simp: Let_def split: if_splits)

lemma access_instances_data: "(s, n) \<in> set (access_instances P cfg name) \<Longrightarrow> data n = name"
  by (auto simp: access_instances_def Let_def dest: instances_in_states_data)

lemma first_instance_node:
  "first_instance insts = (fs, Some n) \<Longrightarrow> \<exists>s. (s, n) \<in> set insts"
  by (cases insts) (auto simp: first_instance_def)

lemma last_instance_node:
  "last_instance insts = (ls, Some n) \<Longrightarrow> \<exists>s. (s, n) \<in> set insts"
proof -
  assume a: "last_instance insts = (ls, Some n)"
  then have ne: "insts \<noteq> []" and "snd (last insts) = n"
    by (auto simp: last_instance_def split: if_splits)
  then have "(fst (last insts), n) \<in> set insts"
    using last_in_set[OF ne] by (metis prod.collapse)
  then show ?thesis by blast
qed

lemma view_actions_named:
  "(\<And>s n. (s, n) \<in> set insts \<Longrightarrow> data n = name) \<Longrightarrow>
     \<forall>ka\<in>set (view_actions cfg insts). action_named cfg name ka"
  by (induction cfg insts rule: view_actions.induct) auto

lemma emit_actions_named:
  assumes "emit_actions P X cfg name desc insts cursdfg curscope pl = Some (Inr pl')"
    and d: "\<And>s n. (s, n) \<in> set insts \<Longrightarrow> data n = name"
  shows "\<exists>acts. to_allocate pl' = to_allocate pl @ acts \<and> (\<forall>ka\<in>set acts. action_named cfg name ka)"
proof -
  obtain fs fn where fi: "first_instance insts = (fs, fn)" by (cases "first_instance insts")
  obtain ls ln where li: "last_instance insts = (ls, ln)" by (cases "last_instance insts")
  have fnn: "case fn of None \<Rightarrow> True | Some n \<Rightarrow> data n = name"
    using first_instance_node[of insts fs] fi d by (auto split: option.splits)
  have lnn: "case ln of None \<Rightarrow> True | Some n \<Rightarrow> data n = name"
    using last_instance_node[of insts ls] li d by (auto split: option.splits)
  from view_actions_named[of insts name cfg] d
  have v: "\<forall>ka\<in>set (view_actions cfg insts). action_named cfg name ka" by blast
  show ?thesis
    using assms(1) fnn lnn v
    unfolding emit_actions_def Let_def fi li
    by (auto simp: append_action_def set_where_allocated_def
        split: prod.splits if_splits option.splits sum.splits)
qed

lemma allocate_descriptor_named:
  assumes "allocate_descriptor P X (cfg, name, desc) pl = Some (Inr pl')"
  shows "\<exists>acts. to_allocate pl' = to_allocate pl @ acts \<and> (\<forall>ka\<in>set acts. action_named cfg name ka)"
proof -
  let ?insts = "access_instances P cfg name"
  have fnn: "\<And>y. snd (first_instance ?insts) = Some y \<Longrightarrow> data y = name"
  proof -
    fix y assume "snd (first_instance ?insts) = Some y"
    then have "first_instance ?insts = (fst (first_instance ?insts), Some y)"
      by (metis prod.collapse)
    from first_instance_node[OF this] show "data y = name"
      using access_instances_data by blast
  qed
  have em: "\<And>cursdfg curscope. emit_actions P X cfg name desc ?insts cursdfg curscope pl = Some (Inr pl')
      \<Longrightarrow> ?thesis"
    using emit_actions_named[of P X cfg name desc ?insts _ _ pl pl'] access_instances_data[of _ _ P cfg name]
    by blast
  show ?thesis
    using assms fnn em
    unfolding allocate_descriptor_def Let_def
    by (auto simp: set_where_allocated_def split: option.splits if_splits sum.splits prod.splits)
qed

lemma action_for_named:
  "action_for cfg name ka \<Longrightarrow> action_named cfg' name' ka \<Longrightarrow> cfg' = cfg \<and> name' = name"
  by (cases ka) (auto split: option.splits)

lemma top_level_step:
  assumes "map_of (sdfg_arrays (sdfg_of P cfg)) (root_data name) = Some top_desc"
    and "transient top_desc" and "top_level_lifetime (lifetime top_desc)"
    and "name \<notin> set (constants_prop (sdfg_of P cfg))"
    and "access_instances P cfg name = (s, n) # rest"
    and "allocate_descriptor P X (cfg, name, desc) pl = Some (Inr pl')"
  shows "where_allocated pl' (cfg, name) = Some (Some (top_sdfg P))
     \<and> to_allocate pl' = to_allocate pl
          @ [(Some (SDFG_scope (top_sdfg P)), (cfg, Some s, Some n, True, True, True))]"
  using assms
  by (auto simp: allocate_descriptor_def Let_def top_level_lifetime_def first_instance_def
      set_where_allocated_def split: if_splits)

lemma run_top_level:
  assumes top: "map_of (sdfg_arrays (sdfg_of P cfg)) (root_data name) = Some top_desc"
    "transient top_desc" "top_level_lifetime (lifetime top_desc)"
    "name \<notin> set (constants_prop (sdfg_of P cfg))"
    "access_instances P cfg name = (s, n) # rest"
  defines "top_action \<equiv> (Some (SDFG_scope (top_sdfg P)), (cfg, Some s, Some n, True, True, True))"
  shows "allocate_descriptors P X items pl = Some (Inr plan) \<Longrightarrow>
     (\<exists>desc. (cfg, name, desc) \<in> set items)
       \<or> (where_allocated pl (cfg, name) = Some (Some (top_sdfg P)) \<and> top_action \<in> set (to_allocate pl)) \<Longrightarrow>
     (\<forall>ka\<in>set (to_allocate pl). action_for cfg name ka \<longrightarrow> fst ka = Some (SDFG_scope (top_sdfg P))) \<Longrightarrow>
     where_allocated plan (cfg, name) = Some (Some (top_sdfg P)) \<and> top_action \<in> set (to_allocate plan)
     \<and> (\<forall>ka\<in>set (to_allocate plan). action_for cfg name ka \<longrightarrow> fst ka = Some (SDFG_scope (top_sdfg P)))"
proof (induction items arbitrary: pl)
  case Nil
  then show ?case by simp
next
  case (Cons item items)
  obtain cfg' name' desc' where item: "item = (cfg', name', desc')" by (cases item) auto
  from Cons.prems(1) obtain pl1 where
    s1: "allocate_descriptor P X (cfg', name', desc') pl = Some (Inr pl1)"
    and r1: "allocate_descriptors P X items pl1 = Some (Inr plan)"
    by (auto simp: item split: option.splits sum.splits)
  show ?case
  proof (cases "(cfg', name') = (cfg, name)")
    case True
    with s1 have s1': "allocate_descriptor P X (cfg, name, desc') pl = Some (Inr pl1)" by simp
    from top_level_step[OF top s1'] have
      w: "where_allocated pl1 (cfg, name) = Some (Some (top_sdfg P))"
      and a: "to_allocate pl1 = to_allocate pl @ [top_action]"
      by (auto simp: top_action_def)
    have inv: "where_allocated pl1 (cfg, name) = Some (Some (top_sdfg P)) \<and> top_action \<in> set (to_allocate pl1)"
      using w a by simp
    have all: "\<forall>ka\<in>set (to_allocate pl1). action_for cfg name ka \<longrightarrow> fst ka = Some (SDFG_scope (top_sdfg P))"
      using Cons.prems(3) a by (auto simp: top_action_def)
    from Cons.IH[OF r1 disjI2[OF inv] all] show ?thesis .
  next
    case False
    from allocate_descriptor_effect[OF s1] False have
      w: "where_allocated pl1 (cfg, name) = where_allocated pl (cfg, name)" by auto
    from allocate_descriptor_named[OF s1] obtain acts where
      a: "to_allocate pl1 = to_allocate pl @ acts" and nm: "\<forall>ka\<in>set acts. action_named cfg' name' ka"
      by auto
    have all: "\<forall>ka\<in>set (to_allocate pl1). action_for cfg name ka \<longrightarrow> fst ka = Some (SDFG_scope (top_sdfg P))"
      using Cons.prems(3) a nm False action_for_named by fastforce
    have pre: "(\<exists>desc. (cfg, name, desc) \<in> set items)
       \<or> (where_allocated pl1 (cfg, name) = Some (Some (top_sdfg P)) \<and> top_action \<in> set (to_allocate pl1))"
      using Cons.prems(2) False item w a by auto
    from Cons.IH[OF r1 pre all] show ?thesis .
  qed
qed

section \<open>The claims about the allocation plan\<close>

lemma example_program_actions:
  "planned_actions example_program example_externals =
     Some [(Some (State_scope 1), 0, Some 1, Some (AccessNode (Some 10) ''tmp''), True, True, True),
           (Some (SDFG_scope 0), 0, Some 1, Some (AccessNode (Some 12) ''x''), True, True, True),
           (Some (SDFG_scope 0), 0, Some 2, Some (AccessNode (Some 11) ''p''), True, True, True),
           (Some (SDFG_scope 0), 5, Some 3, Some (AccessNode (Some 13) ''g''), True, True, True),
           (Some (SDFG_scope 0), 5, Some 3, Some (AccessNode (Some 14) ''tl''), True, True, True)]"
  by code_simp

lemma example_program_runs:
  obtains plan where
    "determine_allocation_lifetime example_program example_externals = Some (Inr plan)"
    "planned_actions example_program example_externals = Some (to_allocate plan)"
  using example_program_actions
  by (auto simp: planned_actions_def split: option.splits sum.splits)

text \<open>
  Claim C1: a transient buffer that is never accessed produces no allocate or deallocate
  action. The program here has one transient array \<open>x\<close> that no access node and no
  inter-state edge uses and that the symbols of a control flow region name. With Scope
  lifetime the planner adds for \<open>x\<close> an action that declares, allocates and deallocates,
  under the SDFG, with no state and no access node; with SDFG lifetime, where the code
  skips a buffer without an access node, the plan is empty.
\<close>

theorem unaccessed_scope_buffer_planned:
  "access_instances (unused_program Scope_lifetime) 0 ''x'' = []
   \<and> planned_actions (unused_program Scope_lifetime) example_externals
       = Some [(Some (SDFG_scope 0), 0, None, None, True, True, True)]
   \<and> access_instances (unused_program SDFG_lifetime) 0 ''x'' = []
   \<and> planned_actions (unused_program SDFG_lifetime) example_externals = Some []"
  by code_simp

text \<open>
  Claim C2, as the code has it. When the planner returns a plan, for every item whose
  top descriptor is transient with Persistent, External or Global lifetime, whose name
  is no constant of its SDFG and which has an access instance: \<open>where_allocated\<close> maps
  the buffer to the top-level SDFG, the plan holds its action (declare, allocate and
  deallocate, at the first access instance) under the top-level SDFG, and every action
  of the plan for this buffer is under the top-level SDFG, in whatever SDFG the buffer
  is declared.
\<close>

theorem top_level_lifetimes_at_top:
  assumes "determine_allocation_lifetime P X = Some (Inr plan)"
    and "(cfg, name, desc) \<in> set (arrays_recursive P)"
    and "map_of (sdfg_arrays (sdfg_of P cfg)) (root_data name) = Some top_desc"
    and "transient top_desc"
    and "lifetime top_desc = Persistent_lifetime \<or> lifetime top_desc = External_lifetime
         \<or> lifetime top_desc = Global_lifetime"
    and "name \<notin> set (constants_prop (sdfg_of P cfg))"
    and "access_instances P cfg name = (s, n) # rest"
  shows "where_allocated plan (cfg, name) = Some (Some (top_sdfg P))
     \<and> (Some (SDFG_scope (top_sdfg P)), (cfg, Some s, Some n, True, True, True)) \<in> set (to_allocate plan)
     \<and> (\<forall>ka\<in>set (to_allocate plan). action_for cfg name ka \<longrightarrow> fst ka = Some (SDFG_scope (top_sdfg P)))"
proof -
  from assms(1) have run: "allocate_descriptors P X (arrays_recursive P) empty_planner = Some (Inr plan)"
    by (simp add: determine_allocation_lifetime_def)
  have tl: "top_level_lifetime (lifetime top_desc)"
    using assms(5) by (simp add: top_level_lifetime_def)
  have pre: "(\<exists>desc. (cfg, name, desc) \<in> set (arrays_recursive P))
       \<or> (where_allocated empty_planner (cfg, name) = Some (Some (top_sdfg P))
           \<and> (Some (SDFG_scope (top_sdfg P)), (cfg, Some s, Some n, True, True, True))
                \<in> set (to_allocate empty_planner))"
    using assms(2) by blast
  have all: "\<forall>ka\<in>set (to_allocate empty_planner). action_for cfg name ka \<longrightarrow> fst ka = Some (SDFG_scope (top_sdfg P))"
    by (simp add: empty_planner_def)
  from run_top_level[OF assms(3) assms(4) tl assms(6) assms(7) run pre all]
  show ?thesis .
qed

text \<open>
  The Global buffer \<open>g\<close> of the nested SDFG 5 of the example program is planned under
  the top-level SDFG 0.
\<close>

theorem top_level_lifetimes_at_top_witness:
  "(5, ''g'', example_desc Global_lifetime CPU_Heap True) \<in> set (arrays_recursive example_program)
   \<and> map_of (sdfg_arrays (sdfg_of example_program 5)) (root_data ''g'')
        = Some (example_desc Global_lifetime CPU_Heap True)
   \<and> access_instances example_program 5 ''g'' = [(3, AccessNode (Some 13) ''g'')]
   \<and> planned_where example_program example_externals (5, ''g'') = Some (Some (Some 0))
   \<and> (\<exists>plan. determine_allocation_lifetime example_program example_externals = Some (Inr plan)
         \<and> (Some (SDFG_scope 0), (5, Some 3, Some (AccessNode (Some 13) ''g''), True, True, True))
              \<in> set (to_allocate plan)
         \<and> list_all (\<lambda>ka. \<not> action_for 5 ''g'' ka \<or> fst ka = Some (SDFG_scope 0))
              (to_allocate plan))"
proof -
  obtain plan where run:
    "determine_allocation_lifetime example_program example_externals = Some (Inr plan)"
    by (rule example_program_runs)
  have mem: "(5, ''g'', example_desc Global_lifetime CPU_Heap True) \<in> set (arrays_recursive example_program)"
    by (simp add: example_program_def)
  have m: "map_of (sdfg_arrays (sdfg_of example_program 5)) (root_data ''g'')
        = Some (example_desc Global_lifetime CPU_Heap True)"
    by (simp add: example_program_def example_nested_def root_data_def)
  have tr: "transient (example_desc Global_lifetime CPU_Heap True)"
    and lt: "lifetime (example_desc Global_lifetime CPU_Heap True) = Persistent_lifetime
         \<or> lifetime (example_desc Global_lifetime CPU_Heap True) = External_lifetime
         \<or> lifetime (example_desc Global_lifetime CPU_Heap True) = Global_lifetime"
    by (simp_all add: example_desc_def)
  have nc: "''g'' \<notin> set (constants_prop (sdfg_of example_program 5))"
    by (simp add: example_program_def example_nested_def)
  have ai: "access_instances example_program 5 ''g'' = [(3, AccessNode (Some 13) ''g'')]"
    by code_simp
  from top_level_lifetimes_at_top[OF run mem m tr lt nc ai] have
    w: "where_allocated plan (5, ''g'') = Some (Some (top_sdfg example_program))"
    and a: "(Some (SDFG_scope (top_sdfg example_program)),
             (5, Some 3, Some (AccessNode (Some 13) ''g''), True, True, True)) \<in> set (to_allocate plan)"
    and k: "\<forall>ka\<in>set (to_allocate plan). action_for 5 ''g'' ka \<longrightarrow>
              fst ka = Some (SDFG_scope (top_sdfg example_program))"
    by auto
  have top: "top_sdfg example_program = 0" by (simp add: example_program_def)
  have pw: "planned_where example_program example_externals (5, ''g'') = Some (Some (Some 0))"
    using run w top by (simp add: planned_where_def)
  have la: "list_all (\<lambda>ka. \<not> action_for 5 ''g'' ka \<or> fst ka = Some (SDFG_scope 0)) (to_allocate plan)"
    using k top by (auto simp: list_all_iff)
  show ?thesis using mem m ai pw run a la top by auto
qed

text \<open>
  The buffer \<open>c\<close> of the example program is transient with Persistent lifetime and is
  used in state 2, and its name is a constant of its SDFG: the plan has no action for it
  and \<open>where_allocated\<close> has no entry for it.
\<close>

theorem top_level_lifetimes_counterexample:
  "map_of (sdfg_arrays (sdfg_of example_program 0)) (root_data ''c'')
     = Some (example_desc Persistent_lifetime CPU_Heap True)
   \<and> transient (example_desc Persistent_lifetime CPU_Heap True)
   \<and> access_instances example_program 0 ''c'' = [(2, AccessNode (Some 15) ''c'')]
   \<and> planned_where example_program example_externals (0, ''c'') = Some None
   \<and> planned_actions example_program example_externals =
     Some [(Some (State_scope 1), 0, Some 1, Some (AccessNode (Some 10) ''tmp''), True, True, True),
           (Some (SDFG_scope 0), 0, Some 1, Some (AccessNode (Some 12) ''x''), True, True, True),
           (Some (SDFG_scope 0), 0, Some 2, Some (AccessNode (Some 11) ''p''), True, True, True),
           (Some (SDFG_scope 0), 5, Some 3, Some (AccessNode (Some 13) ''g''), True, True, True),
           (Some (SDFG_scope 0), 5, Some 3, Some (AccessNode (Some 14) ''tl''), True, True, True)]"
  by code_simp

text \<open>
  Claim C10, as the code has it. For a transient buffer with Persistent lifetime whose
  name is no constant and which has an access instance, the loop body adds the action
  (declare, allocate, deallocate, at the first access instance) under the top-level SDFG
  and maps the buffer to the top-level SDFG; it adds the buffer's definition to the state
  struct unless the storage is \<open>CPU_ThreadLocal\<close>, in which case the state struct is left
  as it is. The state struct of a returned plan is the fields of the items, in order.
\<close>

theorem persistent_thread_local:
  assumes "map_of (sdfg_arrays (sdfg_of P cfg)) (root_data name) = Some top_desc"
    and "transient top_desc"
    and "lifetime top_desc = Persistent_lifetime"
    and "name \<notin> set (constants_prop (sdfg_of P cfg))"
    and "cfg \<in> set (all_sdfgs_recursive P)"
    and "access_instances P cfg name = (s, n) # rest"
  shows "allocate_descriptor P X (cfg, name, desc) pl =
       Some (Inr (pl\<lparr>statestruct :=
                      (if storage top_desc = CPU_ThreadLocal then statestruct pl
                       else statestruct pl @ [persistent_definition X cfg name desc]),
                    to_allocate := to_allocate pl
                      @ [(Some (SDFG_scope (top_sdfg P)), (cfg, Some s, Some n, True, True, True))],
                    where_allocated := (where_allocated pl)((cfg, name) \<mapsto> Some (top_sdfg P))\<rparr>))
     \<and> item_struct_fields P X (cfg, name, desc) =
         (if storage top_desc = CPU_ThreadLocal then []
          else [persistent_definition X cfg name desc])
     \<and> (determine_allocation_lifetime P X = Some (Inr plan) \<longrightarrow>
          statestruct plan = concat (map (item_struct_fields P X) (arrays_recursive P)))"
proof (intro conjI impI)
  show "allocate_descriptor P X (cfg, name, desc) pl =
       Some (Inr (pl\<lparr>statestruct :=
                      (if storage top_desc = CPU_ThreadLocal then statestruct pl
                       else statestruct pl @ [persistent_definition X cfg name desc]),
                    to_allocate := to_allocate pl
                      @ [(Some (SDFG_scope (top_sdfg P)), (cfg, Some s, Some n, True, True, True))],
                    where_allocated := (where_allocated pl)((cfg, name) \<mapsto> Some (top_sdfg P))\<rparr>))"
    using assms
    by (simp add: allocate_descriptor_def Let_def first_instance_def set_where_allocated_def)
next
  show "item_struct_fields P X (cfg, name, desc) =
         (if storage top_desc = CPU_ThreadLocal then []
          else [persistent_definition X cfg name desc])"
    using assms
    by (simp add: item_struct_fields_def planned_def top_level_lifetime_def)
next
  assume "determine_allocation_lifetime P X = Some (Inr plan)"
  then have "allocate_descriptors P X (arrays_recursive P) empty_planner = Some (Inr plan)"
    by (simp add: determine_allocation_lifetime_def)
  from allocate_descriptors_statestruct[OF this]
  show "statestruct plan = concat (map (item_struct_fields P X) (arrays_recursive P))"
    by (simp add: empty_planner_def)
qed

lemma example_program_statestruct:
  "planned_statestruct example_program example_externals =
     Some [''double * __restrict__ __0_p;'', ''double * __restrict__ __5_g;'']"
  by code_simp

text \<open>
  The thread-local Persistent buffer \<open>tl\<close> of the nested SDFG of the example program:
  it adds no field, and its action is under the top-level SDFG. The state struct of the
  plan holds the fields of \<open>p\<close> and \<open>g\<close> only.
\<close>

theorem persistent_thread_local_witness:
  "map_of (sdfg_arrays (sdfg_of example_program 5)) (root_data ''tl'')
     = Some (example_desc Persistent_lifetime CPU_ThreadLocal True)
   \<and> access_instances example_program 5 ''tl'' = [(3, AccessNode (Some 14) ''tl'')]
   \<and> allocate_descriptor example_program example_externals
        (5, ''tl'', example_desc Persistent_lifetime CPU_ThreadLocal True) empty_planner
      = Some (Inr \<lparr>statestruct = [],
                   to_allocate = [(Some (SDFG_scope 0),
                                   (5, Some 3, Some (AccessNode (Some 14) ''tl''), True, True, True))],
                   where_allocated = (\<lambda>k. None)((5, ''tl'') \<mapsto> Some 0)\<rparr>)
   \<and> item_struct_fields example_program example_externals
        (5, ''tl'', example_desc Persistent_lifetime CPU_ThreadLocal True) = []
   \<and> planned_statestruct example_program example_externals =
        Some (concat (map (item_struct_fields example_program example_externals)
                        (arrays_recursive example_program)))
   \<and> planned_statestruct example_program example_externals =
        Some [''double * __restrict__ __0_p;'', ''double * __restrict__ __5_g;'']"
proof -
  let ?d = "example_desc Persistent_lifetime CPU_ThreadLocal True"
  obtain plan where run:
    "determine_allocation_lifetime example_program example_externals = Some (Inr plan)"
    by (rule example_program_runs)
  have m: "map_of (sdfg_arrays (sdfg_of example_program 5)) (root_data ''tl'') = Some ?d"
    by (simp add: example_program_def example_nested_def root_data_def)
  have tr: "transient ?d" and lt: "lifetime ?d = Persistent_lifetime"
    and st: "storage ?d = CPU_ThreadLocal"
    by (simp_all add: example_desc_def)
  have nc: "''tl'' \<notin> set (constants_prop (sdfg_of example_program 5))"
    by (simp add: example_program_def example_nested_def)
  have inn: "5 \<in> set (all_sdfgs_recursive example_program)"
    by (simp add: example_program_def)
  have ai: "access_instances example_program 5 ''tl'' = [(3, AccessNode (Some 14) ''tl'')]"
    by code_simp
  have top: "top_sdfg example_program = 0" by (simp add: example_program_def)
  note th = persistent_thread_local[OF m tr lt nc inn ai, of example_externals ?d empty_planner plan]
  have a: "allocate_descriptor example_program example_externals (5, ''tl'', ?d) empty_planner
      = Some (Inr \<lparr>statestruct = [],
                   to_allocate = [(Some (SDFG_scope 0),
                                   (5, Some 3, Some (AccessNode (Some 14) ''tl''), True, True, True))],
                   where_allocated = (\<lambda>k. None)((5, ''tl'') \<mapsto> Some 0)\<rparr>)"
    using th st top by (simp add: empty_planner_def)
  have f: "item_struct_fields example_program example_externals (5, ''tl'', ?d) = []"
    using th st by simp
  have s: "planned_statestruct example_program example_externals =
        Some (concat (map (item_struct_fields example_program example_externals)
                        (arrays_recursive example_program)))"
    using th run by (simp add: planned_statestruct_def)
  show ?thesis using m ai a f s example_program_statestruct by blast
qed

text \<open>
  The buffer \<open>k\<close> of the nested SDFG is transient with Persistent lifetime and
  thread-local storage and is used in state 3, and its name is a constant of its SDFG: the
  loop body leaves the plan as it is, so the buffer gets no action.
\<close>

theorem persistent_thread_local_counterexample:
  "map_of (sdfg_arrays (sdfg_of example_program 5)) (root_data ''k'')
     = Some (example_desc Persistent_lifetime CPU_ThreadLocal True)
   \<and> transient (example_desc Persistent_lifetime CPU_ThreadLocal True)
   \<and> access_instances example_program 5 ''k'' = [(3, AccessNode (Some 16) ''k'')]
   \<and> allocate_descriptor example_program example_externals
        (5, ''k'', example_desc Persistent_lifetime CPU_ThreadLocal True) empty_planner
      = Some (Inr empty_planner)
   \<and> planned_where example_program example_externals (5, ''k'') = Some None"
proof -
  have m: "map_of (sdfg_arrays (sdfg_of example_program 5)) (root_data ''k'')
     = Some (example_desc Persistent_lifetime CPU_ThreadLocal True)"
    by (simp add: example_program_def example_nested_def root_data_def)
  have tr: "transient (example_desc Persistent_lifetime CPU_ThreadLocal True)"
    by (simp add: example_desc_def)
  have ai: "access_instances example_program 5 ''k'' = [(3, AccessNode (Some 16) ''k'')]"
    by code_simp
  have c: "''k'' \<in> set (constants_prop (sdfg_of example_program 5))"
    by (simp add: example_program_def example_nested_def)
  have a: "allocate_descriptor example_program example_externals
        (5, ''k'', example_desc Persistent_lifetime CPU_ThreadLocal True) empty_planner
      = Some (Inr empty_planner)"
    using m tr c by (simp add: allocate_descriptor_def Let_def)
  have w: "planned_where example_program example_externals (5, ''k'') = Some None"
    by code_simp
  show ?thesis using m tr ai a w by blast
qed

lemma scope_lifetime_promoted_candidate:
  assumes "used_between_states (sdfg_of P cfg) name"
  shows "candidate_scope P X cfg name desc Scope_lifetime (fs, fn) =
     (if name \<in> set (shared_transients (sdfg_of P cfg))
      then (if fn = None then Inr None else Inr (Some (SDFG_scope cfg, fs)))
      else Inr (Some (SDFG_scope cfg, None)))"
  using assms
  by (simp add: candidate_scope_def Let_def scope_lifetime_states_multistate)

text \<open>
  Claim C4. For a buffer with Scope lifetime whose name is among the free symbols of
  an inter-state edge or among the used symbols of a control flow region, the chain of
  cases ends with the SDFG that declares the buffer as candidate scope, never with a
  state or a scope entry node (a shared buffer without access instance is unused and has
  no candidate at all); and the loop body of a transient, non-constant such buffer
  starts its climb at that SDFG.
\<close>

theorem scope_lifetime_promoted:
  assumes "(\<exists>syms\<in>set (interstate_edge_symbols (sdfg_of P cfg)). name \<in> set syms)
           \<or> (\<exists>syms\<in>set (region_used_symbols (sdfg_of P cfg)). name \<in> set syms)"
  shows "candidate_scope P X cfg name desc Scope_lifetime (fs, fn) =
       (if name \<in> set (shared_transients (sdfg_of P cfg))
        then (if fn = None then Inr None else Inr (Some (SDFG_scope cfg, fs)))
        else Inr (Some (SDFG_scope cfg, None)))
     \<and> (map_of (sdfg_arrays (sdfg_of P cfg)) (root_data name) = Some top_desc
        \<and> transient top_desc \<and> lifetime top_desc = Scope_lifetime
        \<and> name \<notin> set (constants_prop (sdfg_of P cfg)) \<and> cfg \<in> set (all_sdfgs_recursive P)
        \<and> \<not> (name \<in> set (shared_transients (sdfg_of P cfg)) \<and> access_instances P cfg name = [])
        \<longrightarrow> allocate_descriptor P X (cfg, name, desc) pl =
            (case climb P X desc (Some cfg)
                    (if name \<in> set (shared_transients (sdfg_of P cfg))
                     then fst (first_instance (access_instances P cfg name)) else None)
                    (Some (SDFG_scope cfg)) of
               None \<Rightarrow> None
             | Some (Inl e) \<Rightarrow> Some (Inl e)
             | Some (Inr (cursdfg, curstate, curscope)) \<Rightarrow>
                 emit_actions P X cfg name desc (access_instances P cfg name) cursdfg
                   (case curscope of None \<Rightarrow> SDFG_scope (top_sdfg P) | Some sc \<Rightarrow> sc) pl))"
proof -
  from assms have u: "used_between_states (sdfg_of P cfg) name"
    by (simp add: used_between_states_def list_ex_iff)
  note c = scope_lifetime_promoted_candidate[OF u]
  let ?insts = "access_instances P cfg name"
  have c': "candidate_scope P X cfg name desc Scope_lifetime (first_instance ?insts) =
     (if name \<in> set (shared_transients (sdfg_of P cfg))
      then (if ?insts = [] then Inr None
            else Inr (Some (SDFG_scope cfg, fst (first_instance ?insts))))
      else Inr (Some (SDFG_scope cfg, None)))"
    using c[of X desc "fst (first_instance ?insts)" "snd (first_instance ?insts)"]
      first_instance_None[of ?insts]
    by simp
  show ?thesis
    using c c'
    by (auto simp: allocate_descriptor_def Let_def)
qed

text \<open>
  The buffer \<open>x\<close> of the example program is used only under the map entry 30 of state
  1, and the condition of a loop region names it: its candidate scope is SDFG 0, and its
  action is under SDFG 0. Without the region's use the scan of the access nodes ends with
  the map entry.
\<close>

theorem scope_lifetime_promoted_witness:
  "(\<exists>syms\<in>set (region_used_symbols (sdfg_of example_program 0)). ''x'' \<in> set syms)
   \<and> candidate_scope example_program example_externals 0 ''x''
        (example_desc Scope_lifetime Default True) Scope_lifetime
        (Some 1, Some (AccessNode (Some 12) ''x''))
      = Inr (Some (SDFG_scope 0, None))
   \<and> scope_lifetime_states example_program example_externals ''x''
        (sdfg_states (sdfg_of example_program 0)) (None, None, False)
      = (Some (Entry_scope 30), Some 1, False)
   \<and> allocate_descriptor example_program example_externals
        (0, ''x'', example_desc Scope_lifetime Default True) empty_planner
      = Some (Inr \<lparr>statestruct = [],
                   to_allocate = [(Some (SDFG_scope 0),
                                   (0, Some 1, Some (AccessNode (Some 12) ''x''), True, True, True))],
                   where_allocated = (\<lambda>k. None)((0, ''x'') \<mapsto> Some 0)\<rparr>)"
proof -
  let ?d = "example_desc Scope_lifetime Default True"
  have h: "\<exists>syms\<in>set (region_used_symbols (sdfg_of example_program 0)). ''x'' \<in> set syms"
    by (simp add: example_program_def example_top_def)
  then have h': "(\<exists>syms\<in>set (interstate_edge_symbols (sdfg_of example_program 0)). ''x'' \<in> set syms)
           \<or> (\<exists>syms\<in>set (region_used_symbols (sdfg_of example_program 0)). ''x'' \<in> set syms)"
    by blast
  have ns: "''x'' \<notin> set (shared_transients (sdfg_of example_program 0))"
    by (simp add: example_program_def example_top_def)
  have m: "map_of (sdfg_arrays (sdfg_of example_program 0)) (root_data ''x'') = Some ?d"
    by (simp add: example_program_def example_top_def root_data_def)
  have pre: "transient ?d" "lifetime ?d = Scope_lifetime"
    "''x'' \<notin> set (constants_prop (sdfg_of example_program 0))"
    "0 \<in> set (all_sdfgs_recursive example_program)"
    by (simp_all add: example_desc_def example_program_def example_top_def)
  have sc: "scope_lifetime_states example_program example_externals ''x''
        (sdfg_states (sdfg_of example_program 0)) (None, None, False)
      = (Some (Entry_scope 30), Some 1, False)"
    by code_simp
  have ai: "access_instances example_program 0 ''x'' = [(1, AccessNode (Some 12) ''x'')]"
    by code_simp
  have cl: "climb example_program example_externals ?d (Some 0) None (Some (SDFG_scope 0))
      = Some (Inr (Some 0, None, Some (SDFG_scope 0)))"
    by (simp add: climb.simps can_allocate_in_def get_schedule.simps can_allocate_with_def
        example_program_def example_top_def example_externals_def)
  have nf: "\<not> is_nonfree_sym_dependent example_externals a b c d" for a b c d
    by (simp add: example_externals_def)
  note th = scope_lifetime_promoted[OF h', of example_externals ?d "Some 1"
      "Some (AccessNode (Some 12) ''x'')" ?d empty_planner]
  have c: "candidate_scope example_program example_externals 0 ''x'' ?d Scope_lifetime
        (Some 1, Some (AccessNode (Some 12) ''x'')) = Inr (Some (SDFG_scope 0, None))"
    using th ns by simp
  have a: "allocate_descriptor example_program example_externals (0, ''x'', ?d) empty_planner
      = Some (Inr \<lparr>statestruct = [],
                   to_allocate = [(Some (SDFG_scope 0),
                                   (0, Some 1, Some (AccessNode (Some 12) ''x''), True, True, True))],
                   where_allocated = (\<lambda>k. None)((0, ''x'') \<mapsto> Some 0)\<rparr>)"
    using th ns m pre ai cl nf
    by (simp add: emit_actions_def first_instance_def last_instance_def append_action_def
        set_where_allocated_def empty_planner_def)
  show ?thesis using h c sc a by blast
qed

end
